theory Spec2Isabelle
  imports Main "HOL-Library.Word"
begin

unbundle bit_operations_syntax

section \<open>MapGuard: the interposed mmap, munmap, mprotect and mremap\<close>

text \<open>
  A shallow embedding of \<^verbatim>\<open>src/src/mapguard.c\<close>. The hooks run on an LP64 Linux
  process: \<^verbatim>\<open>void *\<close>, \<^verbatim>\<open>uintptr_t\<close>, \<^verbatim>\<open>size_t\<close> and \<^verbatim>\<open>off_t\<close> are 64-bit
  words, \<^verbatim>\<open>int\<close> and \<^verbatim>\<open>int32_t\<close> are 32-bit words. Pointer arithmetic on
  \<^verbatim>\<open>void *\<close> counts bytes (the GNU extension the source relies on) and wraps.
\<close>

type_synonym addr = "64 word"
type_synonym size_t = "64 word"
type_synonym off_t = "64 word"
type_synonym cint = "32 word"

subsection \<open>Constants of the system headers\<close>

text \<open>
  The values of \<^verbatim>\<open>sys/mman.h\<close> and \<^verbatim>\<open>errno.h\<close> on Linux; \<^verbatim>\<open>OK\<close> and \<^verbatim>\<open>ERROR\<close>
  are those of \<^verbatim>\<open>mapguard.h\<close>.
\<close>

definition PROT_NONE :: cint where "PROT_NONE = 0"
definition PROT_READ :: cint where "PROT_READ = 1"
definition PROT_WRITE :: cint where "PROT_WRITE = 2"
definition PROT_EXEC :: cint where "PROT_EXEC = 4"
definition MAP_PRIVATE :: cint where "MAP_PRIVATE = 2"
definition MAP_FIXED :: cint where "MAP_FIXED = 16"
definition MAP_ANONYMOUS :: cint where "MAP_ANONYMOUS = 32"
definition MREMAP_MAYMOVE :: cint where "MREMAP_MAYMOVE = 1"
definition MAP_FAILED :: addr where "MAP_FAILED = - 1"
definition NULL :: addr where "NULL = 0"
definition OK :: cint where "OK = 0"
definition ERROR :: cint where "ERROR = - 1"
definition EINVAL :: cint where "EINVAL = 22"

subsection \<open>The policy and the cache entry\<close>

text \<open>
  \<^verbatim>\<open>mapguard_policy_t\<close>: each \<^verbatim>\<open>uint8_t\<close> switch is zero-initialised, is only ever
  set to 1 (\<^verbatim>\<open>ENV_TO_INT\<close>) and is only tested for being non-zero, so it is a
  \<open>bool\<close> here.
\<close>

record mapguard_policy_t =
  disallow_rwx :: bool
  disallow_transition_to_x :: bool
  disallow_transition_from_x :: bool
  disallow_static_address :: bool
  enable_guard_pages :: bool
  panic_on_violation :: bool
  poison_on_allocation :: bool
  use_mapping_cache :: bool
  enable_syslog :: bool

text \<open>
  \<^verbatim>\<open>mapguard_cache_entry_t\<close> with the fields \<^verbatim>\<open>mapguard.c\<close> reads and writes
  (\<^verbatim>\<open>guard_bottom\<close> and \<^verbatim>\<open>guard_top\<close> are pointers there: they are assigned
  the result of \<^verbatim>\<open>map_guard_page\<close> and tested against \<^verbatim>\<open>NULL\<close>). The field
  \<^verbatim>\<open>size\<close> is \<open>size_m\<close> here. \<^verbatim>\<open>cache_index\<close> holds what \<^verbatim>\<open>vector_push\<close>
  returned, a position in the vector: a \<open>nat\<close> (the \<^verbatim>\<open>int32_t\<close> of the source
  holds every position of a vector shorter than \<open>2 ^ 31\<close>).
\<close>

record mapguard_cache_entry_t =
  start :: addr
  size_m :: size_t
  guard_bottom :: addr
  guard_top :: addr
  immutable_prot :: cint
  current_prot :: cint
  cache_index :: nat
  xom_enabled :: cint
  pkey_access_rights :: cint
  pkey :: cint

text \<open>\<^verbatim>\<open>new_mapguard_cache_entry\<close>: \<^verbatim>\<open>malloc\<close> and \<^verbatim>\<open>memset\<close> to zero.\<close>

definition new_mapguard_cache_entry :: mapguard_cache_entry_t where
  "new_mapguard_cache_entry =
     \<lparr>start = 0, size_m = 0, guard_bottom = 0, guard_top = 0, immutable_prot = 0,
      current_prot = 0, cache_index = 0, xom_enabled = 0, pkey_access_rights = 0, pkey = 0\<rparr>"

subsection \<open>The real primitives and the state of the process\<close>

text \<open>
  \<^verbatim>\<open>g_real_mmap\<close>, \<^verbatim>\<open>g_real_munmap\<close>, \<^verbatim>\<open>g_real_mprotect\<close> and \<^verbatim>\<open>g_real_mremap\<close>
  are the C library's functions, found with \<^verbatim>\<open>dlsym\<close>. What they answer is the
  kernel's business: they are a parameter, functions of a kernel state \<open>'k\<close> of any
  type, which answer with the value returned, the value they leave in \<^verbatim>\<open>errno\<close>
  (\<open>None\<close>: untouched) and the next kernel state.
\<close>

type_synonym ('r, 'k) reply = "'r \<times> cint option \<times> 'k"

record 'k os_t =
  g_real_mmap :: "'k \<Rightarrow> addr \<Rightarrow> size_t \<Rightarrow> cint \<Rightarrow> cint \<Rightarrow> cint \<Rightarrow> off_t \<Rightarrow> (addr, 'k) reply"
  g_real_munmap :: "'k \<Rightarrow> addr \<Rightarrow> size_t \<Rightarrow> (cint, 'k) reply"
  g_real_mprotect :: "'k \<Rightarrow> addr \<Rightarrow> size_t \<Rightarrow> cint \<Rightarrow> (cint, 'k) reply"
  g_real_mremap :: "'k \<Rightarrow> addr \<Rightarrow> size_t \<Rightarrow> size_t \<Rightarrow> cint \<Rightarrow> (addr, 'k) reply"

text \<open>The calls made to the real primitives, in order, are kept as a log.\<close>

datatype syscall =
  Real_mmap addr size_t cint cint cint off_t
| Real_munmap addr size_t
| Real_mprotect addr size_t cint
| Real_mremap addr size_t size_t cint

text \<open>
  The state the hooks work on. \<open>g_map_cache_vector\<close> is the vector of pointers to
  the cache entries; every entry is reachable through the vector only, so the vector
  is the list of the entries themselves, and a pointer \<^verbatim>\<open>mce\<close> into it is a position
  of the list (\<open>None\<close> for \<^verbatim>\<open>NULL\<close>). \<open>dangling\<close> lists the positions of the vector
  whose pointer refers to memory that \<^verbatim>\<open>free\<close> has released: what the program reads
  through such a pointer is undefined, and nothing below says what is read there.
  The contents of the mapped memory (the \<^verbatim>\<open>memset\<close> of poison-on-allocation) and
  the log output are not part of the state.
\<close>

record 'k world =
  g_map_cache_vector :: "mapguard_cache_entry_t list"
  kernel :: 'k
  errno :: cint
  calls :: "syscall list"
  dangling :: "nat list"

text \<open>A hook returns to its caller, or the process is gone (\<^verbatim>\<open>abort()\<close>).\<close>

datatype 'a outcome = Returned 'a | Aborted

definition set_errno :: "cint option \<Rightarrow> cint \<Rightarrow> cint" where
  "set_errno e old = (case e of None \<Rightarrow> old | Some v \<Rightarrow> v)"

definition call_real_mmap ::
  "'k os_t \<Rightarrow> 'k world \<Rightarrow> addr \<Rightarrow> size_t \<Rightarrow> cint \<Rightarrow> cint \<Rightarrow> cint \<Rightarrow> off_t \<Rightarrow> addr \<times> 'k world" where
  "call_real_mmap os w a n prot flags fd off =
     (case g_real_mmap os (kernel w) a n prot flags fd off of
        (r, e, k) \<Rightarrow>
          (r, w\<lparr>kernel := k, errno := set_errno e (errno w),
                calls := calls w @ [Real_mmap a n prot flags fd off]\<rparr>))"

definition call_real_munmap :: "'k os_t \<Rightarrow> 'k world \<Rightarrow> addr \<Rightarrow> size_t \<Rightarrow> cint \<times> 'k world" where
  "call_real_munmap os w a n =
     (case g_real_munmap os (kernel w) a n of
        (r, e, k) \<Rightarrow>
          (r, w\<lparr>kernel := k, errno := set_errno e (errno w),
                calls := calls w @ [Real_munmap a n]\<rparr>))"

definition call_real_mprotect ::
  "'k os_t \<Rightarrow> 'k world \<Rightarrow> addr \<Rightarrow> size_t \<Rightarrow> cint \<Rightarrow> cint \<times> 'k world" where
  "call_real_mprotect os w a n prot =
     (case g_real_mprotect os (kernel w) a n prot of
        (r, e, k) \<Rightarrow>
          (r, w\<lparr>kernel := k, errno := set_errno e (errno w),
                calls := calls w @ [Real_mprotect a n prot]\<rparr>))"

definition call_real_mremap ::
  "'k os_t \<Rightarrow> 'k world \<Rightarrow> addr \<Rightarrow> size_t \<Rightarrow> size_t \<Rightarrow> cint \<Rightarrow> addr \<times> 'k world" where
  "call_real_mremap os w a old_len new_len flags =
     (case g_real_mremap os (kernel w) a old_len new_len flags of
        (r, e, k) \<Rightarrow>
          (r, w\<lparr>kernel := k, errno := set_errno e (errno w),
                calls := calls w @ [Real_mremap a old_len new_len flags]\<rparr>))"

subsection \<open>The vector\<close>

text \<open>
  \<^verbatim>\<open>vector_t/vector.h\<close> is not among the sources. The spec has the store as "a
  generic dynamic array/vector container used purely as storage for cache entries
  (push, index-based delete, linear predicate search)". The container is generic: it
  holds pointers and knows nothing of what they point to, whence the type variable
  of the three functions.
\<close>

text \<open>
  Modelled from the spec: \<^verbatim>\<open>vector_push\<close>, which is missing. The spec:
  \<open>insert(record) -> index\<close>, the index being the record's "position in the Mapping
  Store".
\<close>

definition vector_push :: "'a list \<Rightarrow> 'a \<Rightarrow> 'a list \<times> nat" where
  "vector_push v p = (v @ [p], length v)"

text \<open>
  Modelled from the spec: \<^verbatim>\<open>vector_for_each\<close>, which is missing. The spec: "lookup
  is a linear scan over the backing container". The callback is called on the
  elements in order, and the first answer that is not \<^verbatim>\<open>NULL\<close> is returned: here
  the position of that element.
\<close>

fun vector_scan :: "nat \<Rightarrow> 'a list \<Rightarrow> ('a \<Rightarrow> 'b \<Rightarrow> bool) \<Rightarrow> 'b \<Rightarrow> nat option" where
  "vector_scan n [] fe data = None"
| "vector_scan n (p # ps) fe data =
     (if fe p data then Some n else vector_scan (Suc n) ps fe data)"

definition vector_for_each :: "'a list \<Rightarrow> ('a \<Rightarrow> 'b \<Rightarrow> bool) \<Rightarrow> 'b \<Rightarrow> nat option" where
  "vector_for_each v fe data = vector_scan 0 v fe data"

text \<open>
  Modelled from the spec: \<^verbatim>\<open>vector_delete_at\<close>, which is missing. The spec: removal
  at an index, where "the original uses swap-with-last/compaction semantics": the
  element at the index goes and the elements behind it close the gap. An index beyond
  the used part deletes nothing (the one thing taken for granted here; the theorems
  on removal below are about indices within the vector).
\<close>

definition vector_delete_at :: "'a list \<Rightarrow> nat \<Rightarrow> 'a list" where
  "vector_delete_at v i = (if i < length v then take i v @ drop (Suc i) v else v)"

text \<open>
  Where the pointer that was at position \<open>d\<close> of a vector of \<open>n\<close> elements is after
  \<^verbatim>\<open>vector_delete_at\<close> at another position \<open>k\<close>.
\<close>

definition slot_after_delete :: "nat \<Rightarrow> nat \<Rightarrow> nat \<Rightarrow> nat" where
  "slot_after_delete n k d = (if k < n \<and> k < d then d - 1 else d)"

text \<open>
  Modelled from the spec: the other reading of "swap-with-last/compaction
  semantics", in which the last element takes the place of the deleted one. The hooks
  below use \<open>vector_delete_at\<close>; this one serves to tell where the two readings agree.
\<close>

definition vector_delete_at_swap :: "'a list \<Rightarrow> nat \<Rightarrow> 'a list" where
  "vector_delete_at_swap v i = (if i < length v then butlast (v[i := last v]) else v)"

subsection \<open>Pages and the cache lookup\<close>

text \<open>\<^verbatim>\<open>g_page_size\<close> is the parameter \<open>pgsz\<close> of what follows.\<close>

definition get_base_page :: "size_t \<Rightarrow> addr \<Rightarrow> addr" where
  "get_base_page pgsz a = a AND NOT (pgsz - 1)"

definition ROUND_UP_PAGE :: "size_t \<Rightarrow> 64 word \<Rightarrow> 64 word" where
  "ROUND_UP_PAGE pgsz n = ((n + pgsz - 1) div pgsz) * pgsz"

text \<open>
  \<^verbatim>\<open>is_mapguard_entry_cached\<close> returns the entry or \<^verbatim>\<open>NULL\<close>: here whether it
  returns the entry.
\<close>

definition is_mapguard_entry_cached :: "mapguard_cache_entry_t \<Rightarrow> addr \<Rightarrow> bool" where
  "is_mapguard_entry_cached mce data =
     (if start mce = data then True
      else if data > start mce \<and> start mce + size_m mce > data then True
      else False)"

definition find_entry :: "'k world \<Rightarrow> addr \<Rightarrow> nat option" where
  "find_entry w a = vector_for_each (g_map_cache_vector w) is_mapguard_entry_cached a"

definition set_entry :: "'k world \<Rightarrow> nat \<Rightarrow> mapguard_cache_entry_t \<Rightarrow> 'k world" where
  "set_entry w i mce = w\<lparr>g_map_cache_vector := (g_map_cache_vector w)[i := mce]\<rparr>"

definition entry :: "'k world \<Rightarrow> nat \<Rightarrow> mapguard_cache_entry_t" where
  "entry w i = g_map_cache_vector w ! i"

subsection \<open>Guard pages\<close>

definition map_guard_page :: "'k os_t \<Rightarrow> size_t \<Rightarrow> 'k world \<Rightarrow> addr \<Rightarrow> addr \<times> 'k world" where
  "map_guard_page os pgsz w a =
     call_real_mmap os w (get_base_page pgsz a) pgsz PROT_NONE (MAP_ANONYMOUS OR MAP_PRIVATE) (- 1) 0"

definition unmap_top_guard_page :: "'k os_t \<Rightarrow> size_t \<Rightarrow> 'k world \<Rightarrow> nat \<Rightarrow> 'k world" where
  "unmap_top_guard_page os pgsz w mce =
     (if guard_top (entry w mce) \<noteq> 0
      then snd (call_real_munmap os w (guard_top (entry w mce)) pgsz)
      else w)"

definition unmap_bottom_guard_page :: "'k os_t \<Rightarrow> size_t \<Rightarrow> 'k world \<Rightarrow> nat \<Rightarrow> 'k world" where
  "unmap_bottom_guard_page os pgsz w mce =
     (if guard_bottom (entry w mce) \<noteq> 0
      then snd (call_real_munmap os w (guard_bottom (entry w mce)) pgsz)
      else w)"

definition unmap_guard_pages :: "'k os_t \<Rightarrow> size_t \<Rightarrow> 'k world \<Rightarrow> nat \<Rightarrow> 'k world" where
  "unmap_guard_pages os pgsz w mce =
     unmap_top_guard_page os pgsz (unmap_bottom_guard_page os pgsz w mce) mce"

fun map_bottom_guard_page :: "'k os_t \<Rightarrow> size_t \<Rightarrow> 'k world \<Rightarrow> nat option \<Rightarrow> 'k world" where
  "map_bottom_guard_page os pgsz w None = w"
| "map_bottom_guard_page os pgsz w (Some mce) =
     (case map_guard_page os pgsz w (get_base_page pgsz (start (entry w mce) - 1)) of
        (p, w1) \<Rightarrow> set_entry w1 mce ((entry w1 mce)\<lparr>guard_bottom := p\<rparr>))"

fun map_top_guard_page :: "'k os_t \<Rightarrow> size_t \<Rightarrow> 'k world \<Rightarrow> nat option \<Rightarrow> 'k world" where
  "map_top_guard_page os pgsz w None = w"
| "map_top_guard_page os pgsz w (Some mce) =
     (case map_guard_page os pgsz w
             (ROUND_UP_PAGE pgsz (start (entry w mce) + size_m (entry w mce))) of
        (p, w1) \<Rightarrow> set_entry w1 mce ((entry w1 mce)\<lparr>guard_top := p\<rparr>))"

definition map_guard_pages :: "'k os_t \<Rightarrow> size_t \<Rightarrow> 'k world \<Rightarrow> nat \<Rightarrow> 'k world" where
  "map_guard_pages os pgsz w mce =
     (if start (entry w mce) = 0 \<and> size_m (entry w mce) \<noteq> 0 then w
      else map_top_guard_page os pgsz (map_bottom_guard_page os pgsz w (Some mce)) (Some mce))"

subsection \<open>The hooks\<close>

text \<open>
  \<^verbatim>\<open>free(mce)\<close> in \<^verbatim>\<open>munmap\<close>, after \<^verbatim>\<open>vector_delete_at\<close>: the entry's memory is
  released. \<open>free_mce w p\<close> takes the position \<open>p\<close> at which the vector still holds the
  pointer \<^verbatim>\<open>mce\<close> (\<open>None\<close> when the slot deleted was its own) and records it as
  dangling.
\<close>

definition free_mce :: "'k world \<Rightarrow> nat option \<Rightarrow> 'k world" where
  "free_mce w p = (case p of None \<Rightarrow> w | Some i \<Rightarrow> w\<lparr>dangling := i # dangling w\<rparr>)"

text \<open>
  \<^verbatim>\<open>MAYBE_PANIC\<close> (in \<^verbatim>\<open>mapguard.h\<close>, there written with parentheses):
  \<^verbatim>\<open>if(g_mapguard_policy.panic_on_violation) { abort(); }\<close>. A denial is
  \<open>deny pol r w\<close>: the process aborts, or the hook returns \<open>r\<close> in the state \<open>w\<close>.
\<close>

definition deny :: "mapguard_policy_t \<Rightarrow> 'a \<Rightarrow> 'k world \<Rightarrow> 'a outcome \<times> 'k world" where
  "deny pol r w = (if panic_on_violation pol then (Aborted, w) else (Returned r, w))"

definition mmap ::
  "'k os_t \<Rightarrow> mapguard_policy_t \<Rightarrow> size_t \<Rightarrow> 'k world \<Rightarrow>
     addr \<Rightarrow> size_t \<Rightarrow> cint \<Rightarrow> cint \<Rightarrow> cint \<Rightarrow> off_t \<Rightarrow> addr outcome \<times> 'k world" where
  "mmap os pol pgsz w a len prot flags fd off =
     (if fd \<noteq> - 1 then
        (case call_real_mmap os w a len prot flags fd off of
           (map_ptr, w1) \<Rightarrow> (Returned map_ptr, w1))
      else if disallow_rwx pol \<and> prot AND PROT_WRITE \<noteq> 0 \<and> prot AND PROT_EXEC \<noteq> 0 then
        deny pol MAP_FAILED w
      else if a \<noteq> 0 \<and> disallow_static_address pol then
        deny pol MAP_FAILED w
      else
        (case call_real_mmap os w a len prot flags fd off of
           (map_ptr, w1) \<Rightarrow>
             if map_ptr = MAP_FAILED then (Returned map_ptr, w1)
             else
               let (mce, w2) =
                     (if use_mapping_cache pol then
                        let m = new_mapguard_cache_entry
                                  \<lparr>start := map_ptr, size_m := len,
                                   immutable_prot := immutable_prot new_mapguard_cache_entry OR prot,
                                   current_prot := prot\<rparr>;
                            (v, idx) = vector_push (g_map_cache_vector w1) m;
                            p = length v - 1
                        in (Some p, w1\<lparr>g_map_cache_vector := v[p := m\<lparr>cache_index := idx\<rparr>]\<rparr>)
                      else (None, w1));
                   w3 = (case mce of
                           Some p \<Rightarrow> if enable_guard_pages pol then map_guard_pages os pgsz w2 p else w2
                         | None \<Rightarrow> w2)
               in (Returned map_ptr, w3)))"

definition munmap ::
  "'k os_t \<Rightarrow> mapguard_policy_t \<Rightarrow> size_t \<Rightarrow> 'k world \<Rightarrow> addr \<Rightarrow> size_t \<Rightarrow> cint \<times> 'k world" where
  "munmap os pol pgsz w a len =
     (case (if use_mapping_cache pol then find_entry w a else None) of
        None \<Rightarrow> call_real_munmap os w a len
      | Some mce \<Rightarrow>
          if start (entry w mce) \<noteq> a \<or> size_m (entry w mce) \<noteq> len then
            let w1 = set_entry w mce ((entry w mce)\<lparr>size_m := size_m (entry w mce) - len\<rparr>) in
            if a > start (entry w1 mce) \<and> len < size_m (entry w1 mce) then
              (case call_real_munmap os (unmap_top_guard_page os pgsz w1 mce) a len of
                 (ret, w3) \<Rightarrow>
                   (ret, if ret = 0 then map_top_guard_page os pgsz w3 (Some mce) else w3))
            else if start (entry w1 mce) = a then
              let w2 = unmap_bottom_guard_page os pgsz w1 mce;
                  w2' = set_entry w2 mce ((entry w2 mce)\<lparr>start := start (entry w2 mce) + len\<rparr>)
              in (case call_real_munmap os w2' a len of
                    (ret, w3) \<Rightarrow>
                      (ret, if ret = 0 then map_bottom_guard_page os pgsz w3 (Some mce) else w3))
            else call_real_munmap os w1 a len
          else
            let w1 = unmap_guard_pages os pgsz w mce;
                k = cache_index (entry w1 mce);
                n = length (g_map_cache_vector w1);
                w2 = w1\<lparr>g_map_cache_vector := vector_delete_at (g_map_cache_vector w1) k,
                        dangling := map (slot_after_delete n k) (filter (\<lambda>d. d \<noteq> k) (dangling w1))\<rparr>;
                w3 = free_mce w2 (if k = mce then None else Some (slot_after_delete n k mce))
            in call_real_munmap os w3 a len)"

definition mprotect ::
  "'k os_t \<Rightarrow> mapguard_policy_t \<Rightarrow> size_t \<Rightarrow> 'k world \<Rightarrow> addr \<Rightarrow> size_t \<Rightarrow> cint \<Rightarrow>
     cint outcome \<times> 'k world" where
  "mprotect os pol pgsz w a len prot =
     (if disallow_rwx pol \<and> prot AND PROT_WRITE \<noteq> 0 \<and> prot AND PROT_EXEC \<noteq> 0 then
        deny pol ERROR w
      else
        let mce = (if use_mapping_cache pol then find_entry w a else None);
            to_x = (case mce of
                      None \<Rightarrow> False
                    | Some p \<Rightarrow>
                        xom_enabled (entry w p) = 0 \<and> disallow_transition_to_x pol \<and>
                        prot AND PROT_EXEC \<noteq> 0 \<and> immutable_prot (entry w p) AND PROT_WRITE \<noteq> 0);
            from_x = (case mce of
                        None \<Rightarrow> False
                      | Some p \<Rightarrow>
                          xom_enabled (entry w p) = 0 \<and> disallow_transition_from_x pol \<and>
                          prot AND PROT_WRITE \<noteq> 0 \<and> immutable_prot (entry w p) AND PROT_EXEC \<noteq> 0)
        in
        if to_x then
          (if panic_on_violation pol then (Aborted, w) else (Returned ERROR, w\<lparr>errno := EINVAL\<rparr>))
        else if from_x then
          (if panic_on_violation pol then (Aborted, w) else (Returned ERROR, w\<lparr>errno := EINVAL\<rparr>))
        else
          (case call_real_mprotect os w a len prot of
             (ret, w1) \<Rightarrow>
               (Returned ret,
                case mce of
                  None \<Rightarrow> w1
                | Some p \<Rightarrow>
                    if ret = 0 then
                      set_entry w1 p
                        ((entry w1 p)\<lparr>immutable_prot := immutable_prot (entry w1 p) OR prot,
                                      current_prot := prot\<rparr>)
                    else w1)))"

definition mremap ::
  "'k os_t \<Rightarrow> mapguard_policy_t \<Rightarrow> size_t \<Rightarrow> 'k world \<Rightarrow> addr \<Rightarrow> size_t \<Rightarrow> size_t \<Rightarrow> cint \<Rightarrow>
     addr \<times> 'k world" where
  "mremap os pol pgsz w a old_len new_len flags =
     (case call_real_mremap os w a old_len new_len flags of
        (map_ptr, w1) \<Rightarrow>
          (case (if use_mapping_cache pol then find_entry w1 a else None) of
             None \<Rightarrow> (map_ptr, w1)
           | Some mce \<Rightarrow>
               if (guard_bottom (entry w1 mce) \<noteq> 0 \<or> guard_top (entry w1 mce) \<noteq> 0) \<and>
                  map_ptr \<noteq> MAP_FAILED then
                 let w2 = snd (call_real_munmap os w1 (guard_bottom (entry w1 mce)) pgsz);
                     w3 = snd (call_real_munmap os w2 (guard_top (entry w2 mce)) pgsz);
                     w4 = set_entry w3 mce ((entry w3 mce)\<lparr>start := map_ptr, size_m := new_len\<rparr>)
                 in (map_ptr, map_guard_pages os pgsz w4 mce)
               else (map_ptr, w1)))"

subsection \<open>A caller\<close>

text \<open>
  A program is a list of requests to the four hooks, served in order until the
  process aborts.
\<close>

datatype request =
  Create addr size_t cint cint cint off_t
| Remove addr size_t
| Reprotect addr size_t cint
| Relocate addr size_t size_t cint

fun serve ::
  "'k os_t \<Rightarrow> mapguard_policy_t \<Rightarrow> size_t \<Rightarrow> 'k world \<Rightarrow> request \<Rightarrow> bool \<times> 'k world" where
  "serve os pol pgsz w (Create a len prot flags fd off) =
     (case mmap os pol pgsz w a len prot flags fd off of (r, w') \<Rightarrow> (r \<noteq> Aborted, w'))"
| "serve os pol pgsz w (Remove a len) =
     (case munmap os pol pgsz w a len of (r, w') \<Rightarrow> (True, w'))"
| "serve os pol pgsz w (Reprotect a len prot) =
     (case mprotect os pol pgsz w a len prot of (r, w') \<Rightarrow> (r \<noteq> Aborted, w'))"
| "serve os pol pgsz w (Relocate a old_len new_len flags) =
     (case mremap os pol pgsz w a old_len new_len flags of (r, w') \<Rightarrow> (True, w'))"

fun run ::
  "'k os_t \<Rightarrow> mapguard_policy_t \<Rightarrow> size_t \<Rightarrow> 'k world \<Rightarrow> request list \<Rightarrow> 'k world" where
  "run os pol pgsz w [] = w"
| "run os pol pgsz w (r # rs) =
     (case serve os pol pgsz w r of
        (alive, w') \<Rightarrow> if alive then run os pol pgsz w' rs else w')"

fun create_or_reprotect :: "request \<Rightarrow> bool" where
  "create_or_reprotect (Create a len prot flags fd off) = True"
| "create_or_reprotect (Reprotect a len prot) = True"
| "create_or_reprotect r = False"

subsection \<open>Fixtures: policies, a kernel, the state after the constructor\<close>

text \<open>\<^verbatim>\<open>g_mapguard_policy\<close> with no environment variable set.\<close>

definition policy_off :: mapguard_policy_t where
  "policy_off =
     \<lparr>disallow_rwx = False, disallow_transition_to_x = False,
      disallow_transition_from_x = False, disallow_static_address = False,
      enable_guard_pages = False, panic_on_violation = False, poison_on_allocation = False,
      use_mapping_cache = False, enable_syslog = False\<rparr>"

text \<open>
  A kernel for the examples. Its state is the next address it hands out. \<open>mmap\<close>
  places a mapping at the address asked for, or at the next address when none is
  asked for; \<open>mremap\<close> moves the mapping to the next address; every call succeeds.
\<close>

definition os_ok :: "addr os_t" where
  "os_ok =
     \<lparr>g_real_mmap = (\<lambda>k a n prot flags fd off.
        if a = 0 then (k, None, k + n + 65536) else (a, None, k)),
      g_real_munmap = (\<lambda>k a n. (0, None, k)),
      g_real_mprotect = (\<lambda>k a n prot. (0, None, k)),
      g_real_mremap = (\<lambda>k a old_len new_len flags. (k, None, k + new_len + 65536))\<rparr>"

text \<open>The state \<^verbatim>\<open>mapguard_ctor\<close> leaves: \<^verbatim>\<open>vector_init\<close>, nothing called yet.\<close>

definition world0 :: "addr world" where
  "world0 = \<lparr>g_map_cache_vector = [], kernel = 1048576, errno = 0, calls = [], dangling = []\<rparr>"

text \<open>A kernel that has no room for a guard page: it refuses every \<^verbatim>\<open>PROT_NONE\<close> mapping.\<close>

definition ENOMEM :: cint where "ENOMEM = 12"

definition os_no_guard :: "addr os_t" where
  "os_no_guard =
     os_ok\<lparr>g_real_mmap := (\<lambda>k a n prot flags fd off.
        if prot = PROT_NONE then (MAP_FAILED, Some ENOMEM, k)
        else if a = 0 then (k, None, k + n + 65536) else (a, None, k))\<rparr>"

text \<open>A kernel whose \<open>munmap\<close> fails.\<close>

definition os_munmap_fails :: "addr os_t" where
  "os_munmap_fails = os_ok\<lparr>g_real_munmap := (\<lambda>k a n. (ERROR, Some EINVAL, k))\<rparr>"

text \<open>A kernel that refuses everything.\<close>

definition os_fails :: "addr os_t" where
  "os_fails =
     \<lparr>g_real_mmap = (\<lambda>k a n prot flags fd off. (MAP_FAILED, Some ENOMEM, k)),
      g_real_munmap = (\<lambda>k a n. (ERROR, Some EINVAL, k)),
      g_real_mprotect = (\<lambda>k a n prot. (ERROR, Some ENOMEM, k)),
      g_real_mremap = (\<lambda>k a old_len new_len flags. (MAP_FAILED, Some ENOMEM, k))\<rparr>"

text \<open>Policies and flags of the examples.\<close>

definition tracking :: mapguard_policy_t where
  "tracking = policy_off\<lparr>use_mapping_cache := True\<rparr>"

definition guarding :: mapguard_policy_t where
  "guarding = policy_off\<lparr>use_mapping_cache := True, enable_guard_pages := True\<rparr>"

definition no_w_to_x :: mapguard_policy_t where
  "no_w_to_x = policy_off\<lparr>use_mapping_cache := True, disallow_transition_to_x := True\<rparr>"

definition anon :: cint where
  "anon = MAP_ANONYMOUS OR MAP_PRIVATE"

subsection \<open>The permissions of the entries\<close>

text \<open>
  The pair (\<^verbatim>\<open>immutable_prot\<close>, \<^verbatim>\<open>current_prot\<close>) of an entry, and of every entry
  of the vector in order. A permission word \<open>x\<close> is within \<open>y\<close> when \<open>x AND y = x\<close>.
  \<open>covered\<close>: in every pair the current permissions are within the permissions ever
  granted. \<open>grows\<close>: position by position, the permissions ever granted of the first
  list are within those of the second.
\<close>

definition prots :: "mapguard_cache_entry_t \<Rightarrow> cint \<times> cint" where
  "prots m = (immutable_prot m, current_prot m)"

definition view :: "'k world \<Rightarrow> (cint \<times> cint) list" where
  "view w = map prots (g_map_cache_vector w)"

definition covered :: "(cint \<times> cint) list \<Rightarrow> bool" where
  "covered v \<longleftrightarrow> (\<forall>x \<in> set v. snd x AND fst x = snd x)"

definition grows :: "(cint \<times> cint) list \<Rightarrow> (cint \<times> cint) list \<Rightarrow> bool" where
  "grows v v' \<longleftrightarrow>
     length v \<le> length v' \<and> (\<forall>i < length v. fst (v ! i) AND fst (v' ! i) = fst (v ! i))"

section \<open>Properties\<close>

subsection \<open>Evaluation and the lookup\<close>

lemmas header_consts = PROT_READ_def PROT_WRITE_def PROT_EXEC_def PROT_NONE_def
  MAP_ANONYMOUS_def MAP_PRIVATE_def MAP_FAILED_def MAP_FIXED_def ERROR_def EINVAL_def
  MREMAP_MAYMOVE_def ENOMEM_def NULL_def anon_def

lemmas policies = policy_off_def tracking_def guarding_def no_w_to_x_def

text \<open>The scan answers with the first position whose entry the callback accepts.\<close>

lemma vector_scan_Some:
  "vector_scan n v fe d = Some i \<longleftrightarrow>
     n \<le> i \<and> i - n < length v \<and> fe (v ! (i - n)) d \<and> (\<forall>j < i - n. \<not> fe (v ! j) d)"
proof (induction v arbitrary: n)
  case Nil
  then show ?case by simp
next
  case (Cons p ps)
  show ?case
  proof (cases "fe p d")
    case True
    then show ?thesis by (auto simp: nth_Cons split: nat.splits)
  next
    case False
    have "vector_scan n (p # ps) fe d = Some i \<longleftrightarrow> vector_scan (Suc n) ps fe d = Some i"
      using False by simp
    also have "\<dots> \<longleftrightarrow> Suc n \<le> i \<and> i - Suc n < length ps \<and> fe (ps ! (i - Suc n)) d \<and>
        (\<forall>j < i - Suc n. \<not> fe (ps ! j) d)"
      by (rule Cons.IH)
    also have "\<dots> \<longleftrightarrow> n \<le> i \<and> i - n < length (p # ps) \<and> fe ((p # ps) ! (i - n)) d \<and>
        (\<forall>j < i - n. \<not> fe ((p # ps) ! j) d)"
    proof (cases "i \<le> n")
      case True
      then show ?thesis using False by auto
    next
      case gt: False
      then obtain m where m: "i - n = Suc m" "i - Suc n = m"
        by (metis Suc_diff_Suc not_le_imp_less)
      show ?thesis
        using gt False unfolding m
        by (auto simp: nth_Cons less_Suc_eq_0_disj split: nat.splits)
    qed
    finally show ?thesis .
  qed
qed

lemma find_entry_Some:
  "find_entry w a = Some i \<longleftrightarrow>
     i < length (g_map_cache_vector w) \<and> is_mapguard_entry_cached (entry w i) a \<and>
     (\<forall>j < i. \<not> is_mapguard_entry_cached (entry w j) a)"
  by (simp add: find_entry_def vector_for_each_def vector_scan_Some entry_def)

subsection \<open>Create under disallow-RWX\<close>

text \<open>
  C1, as amended. An anonymous request (\<^verbatim>\<open>fd == -1\<close>) for write and execute
  permission under \<^verbatim>\<open>disallow_rwx\<close> leaves the whole state as it was: no real
  primitive is called and the vector keeps its entries. The hook returns
  \<^verbatim>\<open>MAP_FAILED\<close> when \<^verbatim>\<open>panic_on_violation\<close> is off; when it is on, the process
  aborts and the hook does not return.
\<close>

theorem mmap_rwx_denied:
  assumes "disallow_rwx pol" and "prot AND PROT_WRITE \<noteq> 0" and "prot AND PROT_EXEC \<noteq> 0"
  shows "mmap os pol pgsz w a len prot flags (- 1) off =
           ((if panic_on_violation pol then Aborted else Returned MAP_FAILED), w)"
  using assms by (simp add: mmap_def deny_def)

text \<open>
  The scenario of the specification: only disallow-RWX on, a request of 4096 bytes
  for write and execute; the store holds no entry before and after.
\<close>

theorem mmap_rwx_denied_witness:
  "mmap os_ok (policy_off\<lparr>disallow_rwx := True\<rparr>) 4096 world0 0 4096 (PROT_WRITE OR PROT_EXEC)
      (MAP_ANONYMOUS OR MAP_PRIVATE) (- 1) 0 = (Returned MAP_FAILED, world0) \<and>
   length (g_map_cache_vector world0) = 0"
  using mmap_rwx_denied [of "policy_off\<lparr>disallow_rwx := True\<rparr>" "PROT_WRITE OR PROT_EXEC"
      os_ok 4096 world0 0 4096 "MAP_ANONYMOUS OR MAP_PRIVATE" 0]
  by (simp add: policy_off_def header_consts world0_def)

text \<open>
  With \<^verbatim>\<open>panic_on_violation\<close> on as well, the same request does not return
  \<^verbatim>\<open>MAP_FAILED\<close>: \<^verbatim>\<open>MAYBE_PANIC\<close> aborts first.
\<close>

theorem mmap_rwx_panic_counterexample:
  "mmap os_ok (policy_off\<lparr>disallow_rwx := True, panic_on_violation := True\<rparr>) 4096 world0 0 4096
      (PROT_WRITE OR PROT_EXEC) (MAP_ANONYMOUS OR MAP_PRIVATE) (- 1) 0 = (Aborted, world0)"
  by (simp add: mmap_def deny_def policy_off_def header_consts)

subsection \<open>What the real primitives and the guard pages leave alone\<close>

lemma free_mce_fields [simp]:
  "g_map_cache_vector (free_mce w p) = g_map_cache_vector w"
  "calls (free_mce w p) = calls w"
  "kernel (free_mce w p) = kernel w"
  "errno (free_mce w p) = errno w"
  by (simp_all add: free_mce_def split: option.splits)

lemma cache_call_real_mmap [simp]:
  "g_map_cache_vector (snd (call_real_mmap os w a n prot flags fd off)) = g_map_cache_vector w"
  by (simp add: call_real_mmap_def split: prod.splits)

lemma cache_call_real_munmap [simp]:
  "g_map_cache_vector (snd (call_real_munmap os w a n)) = g_map_cache_vector w"
  by (simp add: call_real_munmap_def split: prod.splits)

lemma cache_call_real_mprotect [simp]:
  "g_map_cache_vector (snd (call_real_mprotect os w a n prot)) = g_map_cache_vector w"
  by (simp add: call_real_mprotect_def split: prod.splits)

lemma cache_call_real_mremap [simp]:
  "g_map_cache_vector (snd (call_real_mremap os w a n n' flags)) = g_map_cache_vector w"
  by (simp add: call_real_mremap_def split: prod.splits)

lemma view_call_real [simp]:
  "view (snd (call_real_mmap os w a n prot flags fd off)) = view w"
  "view (snd (call_real_munmap os w a n)) = view w"
  "view (snd (call_real_mprotect os w a n prot)) = view w"
  "view (snd (call_real_mremap os w a n n' flags)) = view w"
  by (simp_all add: view_def)

lemma map_update_same: "f y = f (xs ! i) \<Longrightarrow> map f (xs[i := y]) = map f xs"
  by (cases "i < length xs") (simp_all add: map_update list_update_same_conv list_update_beyond)

lemma view_set_entry: "prots m = prots (entry w i) \<Longrightarrow> view (set_entry w i m) = view w"
  by (simp add: view_def set_entry_def entry_def map_update_same)

lemma view_map_guard_page [simp]: "view (snd (map_guard_page os pgsz w a)) = view w"
  by (simp add: map_guard_page_def)

lemma view_unmap_guard [simp]:
  "view (unmap_top_guard_page os pgsz w i) = view w"
  "view (unmap_bottom_guard_page os pgsz w i) = view w"
  "view (unmap_guard_pages os pgsz w i) = view w"
  by (simp_all add: unmap_top_guard_page_def unmap_bottom_guard_page_def unmap_guard_pages_def)

lemma entry_call_real [simp]:
  "entry (snd (call_real_mmap os w a n prot flags fd off)) i = entry w i"
  "entry (snd (call_real_munmap os w a n)) i = entry w i"
  "entry (snd (call_real_mprotect os w a n prot)) i = entry w i"
  "entry (snd (call_real_mremap os w a n n' flags)) i = entry w i"
  by (simp_all add: entry_def)

lemma view_map_bottom [simp]: "view (map_bottom_guard_page os pgsz w m) = view w"
proof (cases m)
  case None
  then show ?thesis by simp
next
  case (Some i)
  obtain p w1 where r: "map_guard_page os pgsz w (get_base_page pgsz (start (entry w i) - 1)) = (p, w1)"
    by (cases "map_guard_page os pgsz w (get_base_page pgsz (start (entry w i) - 1))")
  have "view w1 = view w"
    using view_map_guard_page [of os pgsz w "get_base_page pgsz (start (entry w i) - 1)"] r by simp
  moreover have "view (set_entry w1 i ((entry w1 i)\<lparr>guard_bottom := p\<rparr>)) = view w1"
    by (rule view_set_entry) (simp add: prots_def)
  ultimately show ?thesis using Some r by simp
qed

lemma view_map_top [simp]: "view (map_top_guard_page os pgsz w m) = view w"
proof (cases m)
  case None
  then show ?thesis by simp
next
  case (Some i)
  let ?a = "ROUND_UP_PAGE pgsz (start (entry w i) + size_m (entry w i))"
  obtain p w1 where r: "map_guard_page os pgsz w ?a = (p, w1)"
    by (cases "map_guard_page os pgsz w ?a")
  have "view w1 = view w"
    using view_map_guard_page [of os pgsz w ?a] r by simp
  moreover have "view (set_entry w1 i ((entry w1 i)\<lparr>guard_top := p\<rparr>)) = view w1"
    by (rule view_set_entry) (simp add: prots_def)
  ultimately show ?thesis using Some r by simp
qed

lemma view_map_guard_pages [simp]: "view (map_guard_pages os pgsz w i) = view w"
  by (simp add: map_guard_pages_def del: map_top_guard_page.simps map_bottom_guard_page.simps)

lemma view_errno [simp]: "view (w\<lparr>errno := e\<rparr>) = view w"
  by (simp add: view_def)

lemma view_push:
  "view (w\<lparr>g_map_cache_vector := v\<rparr>) = map prots v"
  by (simp add: view_def)

lemma view_mmap:
  "view (snd (mmap os pol pgsz w a len prot flags fd off)) = view w \<or>
   view (snd (mmap os pol pgsz w a len prot flags fd off)) = view w @ [(prot, prot)]"
proof -
  obtain p w1 where r: "call_real_mmap os w a len prot flags fd off = (p, w1)"
    by (cases "call_real_mmap os w a len prot flags fd off")
  then have c1: "g_map_cache_vector w1 = g_map_cache_vector w"
    using cache_call_real_mmap [of os w a len prot flags fd off] by simp
  then have v1: "view w1 = view w"
    by (simp add: view_def)
  let ?m = "new_mapguard_cache_entry
              \<lparr>start := p, size_m := len,
               immutable_prot := immutable_prot new_mapguard_cache_entry OR prot,
               current_prot := prot\<rparr>"
  let ?n = "length (g_map_cache_vector w1)"
  let ?w2 = "w1\<lparr>g_map_cache_vector :=
                  (g_map_cache_vector w1 @ [?m])[?n := ?m\<lparr>cache_index := ?n\<rparr>]\<rparr>"
  have v2: "view ?w2 = view w @ [(prot, prot)]"
    by (simp add: view_push prots_def new_mapguard_cache_entry_def c1 view_def [of w])
  show ?thesis
  proof (cases "fd \<noteq> - 1")
    case True
    then have "mmap os pol pgsz w a len prot flags fd off = (Returned p, w1)"
      using r by (simp add: mmap_def)
    then show ?thesis using v1 by simp
  next
    case anon: False
    show ?thesis
    proof (cases "disallow_rwx pol \<and> prot AND PROT_WRITE \<noteq> 0 \<and> prot AND PROT_EXEC \<noteq> 0 \<or>
                  a \<noteq> 0 \<and> disallow_static_address pol")
      case True
      then have "snd (mmap os pol pgsz w a len prot flags fd off) = w"
        using anon by (auto simp add: mmap_def deny_def)
      then show ?thesis by simp
    next
      case allowed: False
      have body: "mmap os pol pgsz w a len prot flags fd off =
          (if p = MAP_FAILED then (Returned p, w1)
           else if use_mapping_cache pol then
             (Returned p, if enable_guard_pages pol then map_guard_pages os pgsz ?w2 ?n else ?w2)
           else (Returned p, w1))"
        using anon allowed r by (auto simp add: mmap_def Let_def vector_push_def)
      show ?thesis
        unfolding body using v1 v2 by simp
    qed
  qed
qed

lemma view_mprotect:
  "view (snd (mprotect os pol pgsz w a len prot)) = view w \<or>
   (\<exists>i < length (view w).
      view (snd (mprotect os pol pgsz w a len prot)) = (view w)[i := (fst (view w ! i) OR prot, prot)])"
proof -
  obtain p w1 where r: "call_real_mprotect os w a len prot = (p, w1)"
    by (cases "call_real_mprotect os w a len prot")
  then have v1: "view w1 = view w" "g_map_cache_vector w1 = g_map_cache_vector w"
    using view_call_real(3) [of os w a len prot]
      cache_call_real_mprotect [of os w a len prot] by simp_all
  have upd: "view (set_entry w1 i ((entry w1 i)\<lparr>immutable_prot := immutable_prot (entry w1 i) OR prot,
                 current_prot := prot\<rparr>)) = (view w)[i := (fst (view w ! i) OR prot, prot)]"
    if "i < length (g_map_cache_vector w)" for i
    using that v1 by (simp add: view_def set_entry_def entry_def map_update prots_def)
  show ?thesis
  proof (cases "if use_mapping_cache pol then find_entry w a else None")
    case None
    then show ?thesis using r v1 by (simp add: mprotect_def deny_def Let_def)
  next
    case (Some i)
    then have "find_entry w a = Some i" by (simp split: if_splits)
    then have i: "i < length (g_map_cache_vector w)" by (simp add: find_entry_Some)
    then have "i < length (view w)" by (simp add: view_def)
    then show ?thesis
      using Some r v1(1) upd [OF i] by (auto simp add: mprotect_def deny_def Let_def)
  qed
qed


lemma prots_update [simp]:
  "prots (m\<lparr>start := a\<rparr>) = prots m"
  "prots (m\<lparr>size_m := n\<rparr>) = prots m"
  "prots (m\<lparr>guard_bottom := a\<rparr>) = prots m"
  "prots (m\<lparr>guard_top := a\<rparr>) = prots m"
  "prots (m\<lparr>cache_index := i\<rparr>) = prots m"
  by (simp_all add: prots_def)

lemma call_real_munmapD:
  "call_real_munmap os w a n = (r, w1) \<Longrightarrow> view w1 = view w"
  using view_call_real(2) [of os w a n] by simp

lemma set_vector_delete_at: "set (vector_delete_at v i) \<subseteq> set v"
  by (auto simp add: vector_delete_at_def dest: in_set_takeD in_set_dropD)

lemma view_munmap: "set (view (snd (munmap os pol pgsz w a len))) \<subseteq> set (view w)"
proof (cases "if use_mapping_cache pol then find_entry w a else None")
  case None
  then show ?thesis by (simp add: munmap_def)
next
  case (Some i)
  show ?thesis
  proof (cases "start (entry w i) \<noteq> a \<or> size_m (entry w i) \<noteq> len")
    case True
    have "view (snd (munmap os pol pgsz w a len)) = view w"
      using Some True
      by (auto simp add: munmap_def Let_def view_set_entry
          simp del: map_top_guard_page.simps map_bottom_guard_page.simps
          split: prod.splits dest!: call_real_munmapD)
    then show ?thesis by simp
  next
    case False
    then have "view (snd (munmap os pol pgsz w a len)) =
        map prots (vector_delete_at (g_map_cache_vector (unmap_guard_pages os pgsz w i))
           (cache_index (entry (unmap_guard_pages os pgsz w i) i)))"
      using Some by (simp add: munmap_def Let_def view_def)
    moreover have "map prots (g_map_cache_vector (unmap_guard_pages os pgsz w i)) = view w"
      using view_unmap_guard(3) [of os pgsz w i] by (simp add: view_def)
    moreover have "set (map prots (vector_delete_at v n)) \<subseteq> set (map prots v)" for v n
      using set_vector_delete_at [of v n] by auto
    ultimately show ?thesis
      by (metis view_def)
  qed
qed

lemma call_real_mremapD:
  "call_real_mremap os w a n n' flags = (r, w1) \<Longrightarrow> view w1 = view w"
  using view_call_real(4) [of os w a n n' flags] by simp

lemma view_mremap: "view (snd (mremap os pol pgsz w a old_len new_len flags)) = view w"
  by (auto simp add: mremap_def Let_def view_set_entry
      split: prod.splits option.splits dest!: call_real_mremapD)

text \<open>Permission words.\<close>

lemma prot_and_or: "(x :: cint) AND (x OR y) = x"
  by (simp add: bit_eq_iff bit_and_iff bit_or_iff)

lemma prot_and_or': "(y :: cint) AND (x OR y) = y"
  by (simp add: bit_eq_iff bit_and_iff bit_or_iff)

lemma prot_and_trans: "(x :: cint) AND y = x \<Longrightarrow> y AND z = y \<Longrightarrow> x AND z = x"
  by (metis and.assoc)

lemma grows_refl: "grows v v"
  by (simp add: grows_def)

lemma grows_trans: "grows v v' \<Longrightarrow> grows v' v'' \<Longrightarrow> grows v v''"
  unfolding grows_def by (meson prot_and_trans order_trans less_le_trans)

lemma in_set_updD: "x \<in> set (xs[i := y]) \<Longrightarrow> x = y \<or> x \<in> set xs"
  using set_update_subset_insert [of xs i y] by auto

lemma covered_update: "covered v \<Longrightarrow> snd y AND fst y = snd y \<Longrightarrow> covered (v[i := y])"
  unfolding covered_def using in_set_updD by fastforce

lemma covered_serve: "covered (view w) \<Longrightarrow> covered (view (snd (serve os pol pgsz w r)))"
proof (cases r)
  case (Create a len prot flags fd off)
  then show "covered (view w) \<Longrightarrow> ?thesis"
    using view_mmap [of os pol pgsz w a len prot flags fd off]
    by (auto simp add: covered_def split: prod.splits)
next
  case (Remove a len)
  then show "covered (view w) \<Longrightarrow> ?thesis"
    using view_munmap [of os pol pgsz w a len]
    by (auto simp add: covered_def split: prod.splits)
next
  case (Reprotect a len prot)
  then show "covered (view w) \<Longrightarrow> ?thesis"
    using view_mprotect [of os pol pgsz w a len prot]
    by (auto simp add: prot_and_or' covered_update split: prod.splits)
next
  case (Relocate a old_len new_len flags)
  then show "covered (view w) \<Longrightarrow> ?thesis"
    using view_mremap [of os pol pgsz w a old_len new_len flags]
    by (auto simp add: covered_def split: prod.splits)
qed

lemma grows_serve:
  "create_or_reprotect r \<Longrightarrow> grows (view w) (view (snd (serve os pol pgsz w r)))"
proof (cases r)
  case (Create a len prot flags fd off)
  then show ?thesis
    using view_mmap [of os pol pgsz w a len prot flags fd off]
    by (auto simp add: grows_def nth_append split: prod.splits)
next
  case (Reprotect a len prot)
  then show ?thesis
    using view_mprotect [of os pol pgsz w a len prot]
    by (auto simp add: grows_def nth_list_update prot_and_or split: prod.splits)
qed simp_all

lemma covered_run: "covered (view w) \<Longrightarrow> covered (view (run os pol pgsz w rs))"
proof (induction rs arbitrary: w)
  case Nil
  then show ?case by simp
next
  case (Cons r rs)
  obtain alive w' where s: "serve os pol pgsz w r = (alive, w')"
    by (cases "serve os pol pgsz w r")
  then have "covered (view w')"
    using covered_serve [OF Cons.prems, of os pol pgsz r] by simp
  then show ?case
    using s Cons.IH [of w'] by simp
qed

lemma grows_run:
  "\<forall>r \<in> set rs. create_or_reprotect r \<Longrightarrow> grows (view w) (view (run os pol pgsz w rs))"
proof (induction rs arbitrary: w)
  case Nil
  then show ?case by (simp add: grows_refl)
next
  case (Cons r rs)
  obtain alive w' where s: "serve os pol pgsz w r = (alive, w')"
    by (cases "serve os pol pgsz w r")
  then have g: "grows (view w) (view w')"
    using grows_serve [of r w os pol pgsz] Cons.prems by simp
  show ?case
  proof (cases alive)
    case True
    then show ?thesis
      using s g Cons.IH [of w'] Cons.prems by (auto intro: grows_trans)
  next
    case False
    then show ?thesis using s g by simp
  qed
qed

subsection \<open>Reprotect: the denials\<close>

lemma mprotect_rwx:
  assumes "disallow_rwx pol" and "prot AND PROT_WRITE \<noteq> 0" and "prot AND PROT_EXEC \<noteq> 0"
  shows "mprotect os pol pgsz w a len prot =
           ((if panic_on_violation pol then Aborted else Returned ERROR), w)"
  using assms by (simp add: mprotect_def deny_def)

lemma mprotect_transition:
  assumes "\<not> (disallow_rwx pol \<and> prot AND PROT_WRITE \<noteq> 0 \<and> prot AND PROT_EXEC \<noteq> 0)"
    and "use_mapping_cache pol" and "find_entry w a = Some i" and "xom_enabled (entry w i) = 0"
    and "disallow_transition_to_x pol \<and> prot AND PROT_EXEC \<noteq> 0 \<and>
           immutable_prot (entry w i) AND PROT_WRITE \<noteq> 0 \<or>
         disallow_transition_from_x pol \<and> prot AND PROT_WRITE \<noteq> 0 \<and>
           immutable_prot (entry w i) AND PROT_EXEC \<noteq> 0"
  shows "mprotect os pol pgsz w a len prot =
           (if panic_on_violation pol then (Aborted, w) else (Returned ERROR, w\<lparr>errno := EINVAL\<rparr>))"
  using assms by (auto simp add: mprotect_def Let_def)


text \<open>
  C10, as amended. A request that \<^verbatim>\<open>mprotect\<close> denies, by the disallow-RWX test or
  by one of the two transition tests on the entry the lookup finds, calls no real
  primitive and leaves the kernel state and every entry of the vector as they were,
  so the entry's \<^verbatim>\<open>current_prot\<close> and \<^verbatim>\<open>immutable_prot\<close> as well. The hook returns
  \<^verbatim>\<open>ERROR\<close> when \<^verbatim>\<open>panic_on_violation\<close> is off and aborts the process when it is on.
  When it returns from a denial by a transition test, \<^verbatim>\<open>errno\<close> is \<^verbatim>\<open>EINVAL\<close>.
  (Nothing is said here of \<^verbatim>\<open>errno\<close> after a disallow-RWX denial.)
\<close>

theorem mprotect_denied:
  assumes "disallow_rwx pol \<and> prot AND PROT_WRITE \<noteq> 0 \<and> prot AND PROT_EXEC \<noteq> 0 \<or>
           use_mapping_cache pol \<and> find_entry w a = Some i \<and> xom_enabled (entry w i) = 0 \<and>
             (disallow_transition_to_x pol \<and> prot AND PROT_EXEC \<noteq> 0 \<and>
                immutable_prot (entry w i) AND PROT_WRITE \<noteq> 0 \<or>
              disallow_transition_from_x pol \<and> prot AND PROT_WRITE \<noteq> 0 \<and>
                immutable_prot (entry w i) AND PROT_EXEC \<noteq> 0)"
  shows "(let r = mprotect os pol pgsz w a len prot in
            fst r = (if panic_on_violation pol then Aborted else Returned ERROR) \<and>
            calls (snd r) = calls w \<and> kernel (snd r) = kernel w \<and>
            g_map_cache_vector (snd r) = g_map_cache_vector w \<and>
            (\<not> panic_on_violation pol \<and>
             \<not> (disallow_rwx pol \<and> prot AND PROT_WRITE \<noteq> 0 \<and> prot AND PROT_EXEC \<noteq> 0)
               \<longrightarrow> errno (snd r) = EINVAL))"
proof (cases "disallow_rwx pol \<and> prot AND PROT_WRITE \<noteq> 0 \<and> prot AND PROT_EXEC \<noteq> 0")
  case True
  then show ?thesis by (simp add: mprotect_rwx)
next
  case False
  with assms have "mprotect os pol pgsz w a len prot =
      (if panic_on_violation pol then (Aborted, w) else (Returned ERROR, w\<lparr>errno := EINVAL\<rparr>))"
    by (intro mprotect_transition) auto
  then show ?thesis by simp
qed

text \<open>
  The scenario of the specification: cache and disallow-transition-to-execute on, a
  mapping created writable, then a request for execute permission on the same range.
\<close>

lemma denied_world:
  "run os_ok no_w_to_x 4096 world0 [Create 0 4096 PROT_WRITE anon (- 1) 0] =
     \<lparr>g_map_cache_vector =
        [\<lparr>start = 1048576, size_m = 4096, guard_bottom = 0, guard_top = 0, immutable_prot = 2,
          current_prot = 2, cache_index = 0, xom_enabled = 0, pkey_access_rights = 0, pkey = 0\<rparr>],
      kernel = 1118208, errno = 0, calls = [Real_mmap 0 4096 2 34 (- 1) 0],
      dangling = []\<rparr>"
  by code_simp

theorem mprotect_denied_witness:
  "(let w = run os_ok no_w_to_x 4096 world0 [Create 0 4096 PROT_WRITE anon (- 1) 0];
        r = mprotect os_ok no_w_to_x 4096 w 1048576 4096 PROT_EXEC
    in find_entry w 1048576 = Some 0 \<and> fst r = Returned ERROR \<and> errno (snd r) = EINVAL \<and>
       calls (snd r) = calls w \<and> g_map_cache_vector (snd r) = g_map_cache_vector w \<and>
       current_prot (entry (snd r) 0) = PROT_WRITE)"
  using mprotect_denied [of no_w_to_x PROT_EXEC
      "run os_ok no_w_to_x 4096 world0 [Create 0 4096 PROT_WRITE anon (- 1) 0]" 1048576 0
      os_ok 4096 4096]
  unfolding denied_world
  by (simp add: Let_def policies header_consts find_entry_def vector_for_each_def
      is_mapguard_entry_cached_def entry_def)

text \<open>
  Against C10 as stated: with \<^verbatim>\<open>panic_on_violation\<close> on, the denied request does not
  return; and the disallow-RWX denial returns \<^verbatim>\<open>ERROR\<close> with \<^verbatim>\<open>errno\<close> as it was
  (0 here), where the two transition denials of the same function store \<^verbatim>\<open>EINVAL\<close>.
\<close>

theorem mprotect_denied_counterexample:
  "mprotect os_ok (policy_off\<lparr>disallow_rwx := True, panic_on_violation := True\<rparr>) 4096 world0
      1048576 4096 (PROT_WRITE OR PROT_EXEC) = (Aborted, world0) \<and>
   mprotect os_ok (policy_off\<lparr>disallow_rwx := True\<rparr>) 4096 world0
      1048576 4096 (PROT_WRITE OR PROT_EXEC) = (Returned ERROR, world0) \<and>
   errno world0 = 0 \<and> EINVAL \<noteq> 0"
  by (simp add: mprotect_def deny_def policies header_consts world0_def)

text \<open>
  C2, as amended. With the cache and disallow-transition-to-execute on: when the
  first entry of the vector that covers the address (the one the lookup returns) is
  not execute-only and has write permission in \<^verbatim>\<open>immutable_prot\<close>, a request for
  execute permission is denied whatever \<^verbatim>\<open>current_prot\<close> is: no real primitive is
  called, the entries stay as they were, and the hook returns \<^verbatim>\<open>ERROR\<close>, or the
  process aborts when \<^verbatim>\<open>panic_on_violation\<close> is on.
\<close>

theorem mprotect_to_x_denied:
  assumes "use_mapping_cache pol" and "disallow_transition_to_x pol"
    and "i < length (g_map_cache_vector w)"
    and "is_mapguard_entry_cached (entry w i) a"
    and "\<forall>j < i. \<not> is_mapguard_entry_cached (entry w j) a"
    and "xom_enabled (entry w i) = 0"
    and "immutable_prot (entry w i) AND PROT_WRITE \<noteq> 0"
    and "prot AND PROT_EXEC \<noteq> 0"
  shows "(let r = mprotect os pol pgsz w a len prot in
            fst r = (if panic_on_violation pol then Aborted else Returned ERROR) \<and>
            calls (snd r) = calls w \<and>
            g_map_cache_vector (snd r) = g_map_cache_vector w)"
proof (cases "disallow_rwx pol \<and> prot AND PROT_WRITE \<noteq> 0 \<and> prot AND PROT_EXEC \<noteq> 0")
  case True
  then show ?thesis by (simp add: mprotect_rwx)
next
  case False
  have "find_entry w a = Some i"
    using assms by (simp add: find_entry_Some)
  with False assms have "mprotect os pol pgsz w a len prot =
      (if panic_on_violation pol then (Aborted, w) else (Returned ERROR, w\<lparr>errno := EINVAL\<rparr>))"
    by (intro mprotect_transition) auto
  then show ?thesis by simp
qed

text \<open>
  A mapping created readable and writable, then made read-only, is refused execute
  permission.
\<close>

lemma writable_once_world:
  "run os_ok no_w_to_x 4096 world0
     [Create 0 4096 (PROT_READ OR PROT_WRITE) anon (- 1) 0, Reprotect 1048576 4096 PROT_READ] =
     \<lparr>g_map_cache_vector =
        [\<lparr>start = 1048576, size_m = 4096, guard_bottom = 0, guard_top = 0, immutable_prot = 3,
          current_prot = 1, cache_index = 0, xom_enabled = 0, pkey_access_rights = 0, pkey = 0\<rparr>],
      kernel = 1118208, errno = 0,
      calls = [Real_mmap 0 4096 3 34 (- 1) 0, Real_mprotect 1048576 4096 1],
      dangling = []\<rparr>"
  by code_simp

theorem mprotect_to_x_denied_witness:
  "(let w = run os_ok no_w_to_x 4096 world0
              [Create 0 4096 (PROT_READ OR PROT_WRITE) anon (- 1) 0,
               Reprotect 1048576 4096 PROT_READ];
        r = mprotect os_ok no_w_to_x 4096 w 1048576 4096 (PROT_READ OR PROT_EXEC)
    in current_prot (entry w 0) = PROT_READ \<and>
       immutable_prot (entry w 0) = PROT_READ OR PROT_WRITE \<and>
       is_mapguard_entry_cached (entry w 0) 1048576 \<and>
       fst r = Returned ERROR \<and> calls (snd r) = calls w \<and>
       g_map_cache_vector (snd r) = g_map_cache_vector w)"
  using mprotect_to_x_denied [of no_w_to_x 0
      "run os_ok no_w_to_x 4096 world0
         [Create 0 4096 (PROT_READ OR PROT_WRITE) anon (- 1) 0, Reprotect 1048576 4096 PROT_READ]"
      1048576 "PROT_READ OR PROT_EXEC" os_ok 4096 4096]
  unfolding writable_once_world
  by (simp add: Let_def policies header_consts is_mapguard_entry_cached_def entry_def)

text \<open>
  Against C2 as stated. First, with \<^verbatim>\<open>panic_on_violation\<close> on the request does not
  return \<^verbatim>\<open>ERROR\<close>: the process aborts. Second, the lookup returns the first entry
  that covers the address: after a read-only mapping of two pages and a writable
  \<^verbatim>\<open>MAP_FIXED\<close> mapping over its first page, the second entry covers the address,
  has been writable and is not execute-only, yet the request for execute permission
  goes to the real \<^verbatim>\<open>mprotect\<close> and succeeds, judged on the first entry.
\<close>

lemma overlap_world:
  "run os_ok no_w_to_x 4096 world0
     [Create 0 8192 PROT_READ anon (- 1) 0,
      Create 1048576 4096 (PROT_READ OR PROT_WRITE) (anon OR MAP_FIXED) (- 1) 0] =
     \<lparr>g_map_cache_vector =
        [\<lparr>start = 1048576, size_m = 8192, guard_bottom = 0, guard_top = 0, immutable_prot = 1,
          current_prot = 1, cache_index = 0, xom_enabled = 0, pkey_access_rights = 0, pkey = 0\<rparr>,
         \<lparr>start = 1048576, size_m = 4096, guard_bottom = 0, guard_top = 0, immutable_prot = 3,
          current_prot = 3, cache_index = 1, xom_enabled = 0, pkey_access_rights = 0, pkey = 0\<rparr>],
      kernel = 1122304, errno = 0,
      calls = [Real_mmap 0 8192 1 34 (- 1) 0, Real_mmap 1048576 4096 3 50 (- 1) 0],
      dangling = []\<rparr>"
  by code_simp

theorem mprotect_to_x_counterexample:
  "fst (mprotect os_ok (no_w_to_x\<lparr>panic_on_violation := True\<rparr>) 4096
      (run os_ok (no_w_to_x\<lparr>panic_on_violation := True\<rparr>) 4096 world0
         [Create 0 4096 PROT_WRITE anon (- 1) 0])
      1048576 4096 PROT_EXEC) = Aborted \<and>
   (let w = run os_ok no_w_to_x 4096 world0
              [Create 0 8192 PROT_READ anon (- 1) 0,
               Create 1048576 4096 (PROT_READ OR PROT_WRITE) (anon OR MAP_FIXED) (- 1) 0];
        r = mprotect os_ok no_w_to_x 4096 w 1048576 4096 (PROT_READ OR PROT_EXEC)
    in is_mapguard_entry_cached (entry w 1) 1048576 \<and> xom_enabled (entry w 1) = 0 \<and>
       immutable_prot (entry w 1) AND PROT_WRITE \<noteq> 0 \<and>
       fst r = Returned 0 \<and> calls (snd r) = calls w @ [Real_mprotect 1048576 4096 (PROT_READ OR PROT_EXEC)])"
  by code_simp

subsection \<open>The permissions ever granted\<close>

text \<open>
  C3. Whatever the requests and whatever the kernel answers: if in every entry the
  current permissions are within the permissions ever granted before, so they are
  after every request (and the vector is empty after the constructor). Over requests
  to \<^verbatim>\<open>mmap\<close> and \<^verbatim>\<open>mprotect\<close> the entries keep their positions, and
  \<^verbatim>\<open>immutable_prot\<close> of every entry only gains bits.
\<close>

theorem permissions_ever_granted:
  "(let w' = run os pol pgsz w rs in
      ((\<forall>m \<in> set (g_map_cache_vector w). current_prot m AND immutable_prot m = current_prot m) \<longrightarrow>
       (\<forall>m \<in> set (g_map_cache_vector w'). current_prot m AND immutable_prot m = current_prot m)) \<and>
      ((\<forall>r \<in> set rs. create_or_reprotect r) \<longrightarrow>
       length (g_map_cache_vector w) \<le> length (g_map_cache_vector w') \<and>
       (\<forall>i < length (g_map_cache_vector w).
          immutable_prot (entry w i) AND immutable_prot (entry w' i) = immutable_prot (entry w i))))"
proof -
  have c: "covered (view x) \<longleftrightarrow>
      (\<forall>m \<in> set (g_map_cache_vector x). current_prot m AND immutable_prot m = current_prot m)"
    for x :: "'a world"
    by (simp add: covered_def view_def prots_def)
  have g: "grows (view x) (view y) \<longleftrightarrow>
      length (g_map_cache_vector x) \<le> length (g_map_cache_vector y) \<and>
      (\<forall>i < length (g_map_cache_vector x).
         immutable_prot (entry x i) AND immutable_prot (entry y i) = immutable_prot (entry x i))"
    for x y :: "'a world"
    by (auto simp add: grows_def view_def prots_def entry_def)
  show ?thesis
    using covered_run [of w os pol pgsz rs] grows_run [of rs w os pol pgsz]
    unfolding c g Let_def by blast
qed

theorem permissions_ever_granted_witness:
  "(let w = run os_ok tracking 4096 world0 [Create 0 4096 (PROT_READ OR PROT_WRITE) anon (- 1) 0];
        rs = [Reprotect 1048576 4096 PROT_READ, Create 0 4096 PROT_READ anon (- 1) 0,
              Reprotect 1048576 4096 (PROT_READ OR PROT_EXEC)];
        w' = run os_ok tracking 4096 w rs
    in list_all (\<lambda>m. current_prot m AND immutable_prot m = current_prot m) (g_map_cache_vector w) \<and>
       list_all create_or_reprotect rs \<and>
       list_all (\<lambda>m. current_prot m AND immutable_prot m = current_prot m) (g_map_cache_vector w') \<and>
       length (g_map_cache_vector w) = 1 \<and> length (g_map_cache_vector w') = 2 \<and>
       immutable_prot (entry w 0) = PROT_READ OR PROT_WRITE \<and>
       immutable_prot (entry w' 0) = PROT_READ OR PROT_WRITE OR PROT_EXEC \<and>
       current_prot (entry w' 0) = PROT_READ OR PROT_EXEC \<and>
       immutable_prot (entry w 0) AND immutable_prot (entry w' 0) = immutable_prot (entry w 0))"
proof -
  let ?w = "run os_ok tracking 4096 world0 [Create 0 4096 (PROT_READ OR PROT_WRITE) anon (- 1) 0]"
  let ?rs = "[Reprotect 1048576 4096 PROT_READ, Create 0 4096 PROT_READ anon (- 1) 0,
              Reprotect 1048576 4096 (PROT_READ OR PROT_EXEC)]"
  let ?w' = "run os_ok tracking 4096 ?w ?rs"
  have before: "\<forall>m \<in> set (g_map_cache_vector ?w). current_prot m AND immutable_prot m = current_prot m"
    by code_simp
  have requests: "\<forall>r \<in> set ?rs. create_or_reprotect r"
    by simp
  have tracked: "0 < length (g_map_cache_vector ?w)"
    by code_simp
  have after: "\<forall>m \<in> set (g_map_cache_vector ?w'). current_prot m AND immutable_prot m = current_prot m"
    using permissions_ever_granted [of os_ok tracking 4096 ?w ?rs] before
    unfolding Let_def by blast
  have kept: "immutable_prot (entry ?w 0) AND immutable_prot (entry ?w' 0) = immutable_prot (entry ?w 0)"
    using permissions_ever_granted [of os_ok tracking 4096 ?w ?rs] requests tracked
    unfolding Let_def by blast
  have concrete: "length (g_map_cache_vector ?w) = 1 \<and> length (g_map_cache_vector ?w') = 2 \<and>
       immutable_prot (entry ?w 0) = PROT_READ OR PROT_WRITE \<and>
       immutable_prot (entry ?w' 0) = PROT_READ OR PROT_WRITE OR PROT_EXEC \<and>
       current_prot (entry ?w' 0) = PROT_READ OR PROT_EXEC"
    by code_simp
  show ?thesis
    unfolding Let_def list_all_iff using before requests after kept concrete by blast
qed

subsection \<open>Entries across the guard pages and the exact-match branch\<close>

lemma calls_call_real_munmap [simp]:
  "calls (snd (call_real_munmap os w a n)) = calls w @ [Real_munmap a n]"
  by (simp add: call_real_munmap_def split: prod.splits)

lemma cache_unmap_guard [simp]:
  "g_map_cache_vector (unmap_top_guard_page os pgsz w i) = g_map_cache_vector w"
  "g_map_cache_vector (unmap_bottom_guard_page os pgsz w i) = g_map_cache_vector w"
  "g_map_cache_vector (unmap_guard_pages os pgsz w i) = g_map_cache_vector w"
  by (simp_all add: unmap_top_guard_page_def unmap_bottom_guard_page_def unmap_guard_pages_def)

lemma entry_unmap_guard [simp]:
  "entry (unmap_top_guard_page os pgsz w i) j = entry w j"
  "entry (unmap_bottom_guard_page os pgsz w i) j = entry w j"
  "entry (unmap_guard_pages os pgsz w i) j = entry w j"
  by (simp_all add: entry_def)

lemma entry_set_entry:
  "entry (set_entry w i m) j =
     (if j = i \<and> i < length (g_map_cache_vector w) then m else entry w j)"
  by (auto simp add: entry_def set_entry_def nth_list_update list_update_beyond)

lemma length_set_entry [simp]:
  "length (g_map_cache_vector (set_entry w i m)) = length (g_map_cache_vector w)"
  by (simp add: set_entry_def)

lemma entry_map_bottom:
  "entry (map_bottom_guard_page os pgsz w (Some i)) j =
     (if j = i \<and> i < length (g_map_cache_vector w)
      then (entry w i)\<lparr>guard_bottom :=
             fst (map_guard_page os pgsz w (get_base_page pgsz (start (entry w i) - 1)))\<rparr>
      else entry w j)"
proof -
  let ?a = "get_base_page pgsz (start (entry w i) - 1)"
  obtain p w1 where r: "map_guard_page os pgsz w ?a = (p, w1)"
    by (cases "map_guard_page os pgsz w ?a")
  then have "g_map_cache_vector w1 = g_map_cache_vector w"
    using cache_call_real_mmap [of os w "get_base_page pgsz ?a" pgsz PROT_NONE
        "MAP_ANONYMOUS OR MAP_PRIVATE" "- 1" 0]
    by (simp add: map_guard_page_def)
  then show ?thesis
    using r by (simp add: entry_set_entry) (simp add: entry_def)
qed

lemma entry_map_top:
  "entry (map_top_guard_page os pgsz w (Some i)) j =
     (if j = i \<and> i < length (g_map_cache_vector w)
      then (entry w i)\<lparr>guard_top :=
             fst (map_guard_page os pgsz w
                    (ROUND_UP_PAGE pgsz (start (entry w i) + size_m (entry w i))))\<rparr>
      else entry w j)"
proof -
  let ?a = "ROUND_UP_PAGE pgsz (start (entry w i) + size_m (entry w i))"
  obtain p w1 where r: "map_guard_page os pgsz w ?a = (p, w1)"
    by (cases "map_guard_page os pgsz w ?a")
  then have "g_map_cache_vector w1 = g_map_cache_vector w"
    using cache_call_real_mmap [of os w "get_base_page pgsz ?a" pgsz PROT_NONE
        "MAP_ANONYMOUS OR MAP_PRIVATE" "- 1" 0]
    by (simp add: map_guard_page_def)
  then show ?thesis
    using r by (simp add: entry_set_entry) (simp add: entry_def)
qed

lemma call_real_munmap_entry:
  "call_real_munmap os w a n = (r, w1) \<Longrightarrow> entry w1 = entry w"
  using entry_call_real(2) [of os w a n] by (intro ext) simp

lemma call_real_mremap_cases:
  obtains p w1 where "call_real_mremap os w a old_len new_len flags = (p, w1)"
    and "g_map_cache_vector w1 = g_map_cache_vector w"
  using cache_call_real_mremap [of os w a old_len new_len flags]
  by (cases "call_real_mremap os w a old_len new_len flags") auto

lemma munmap_exact:
  assumes "use_mapping_cache pol" and "find_entry w a = Some i"
    and "start (entry w i) = a" and "size_m (entry w i) = len"
  shows "munmap os pol pgsz w a len =
           call_real_munmap os
             (free_mce
                ((unmap_guard_pages os pgsz w i)
                   \<lparr>g_map_cache_vector :=
                      vector_delete_at (g_map_cache_vector w) (cache_index (entry w i)),
                    dangling :=
                      map (slot_after_delete (length (g_map_cache_vector w)) (cache_index (entry w i)))
                        (filter (\<lambda>d. d \<noteq> cache_index (entry w i))
                           (dangling (unmap_guard_pages os pgsz w i)))\<rparr>)
                (if cache_index (entry w i) = i then None
                 else Some (slot_after_delete (length (g_map_cache_vector w))
                              (cache_index (entry w i)) i)))
             a len"
  using assms by (simp add: munmap_def Let_def)

lemma dangling_call_real_munmap [simp]:
  "dangling (snd (call_real_munmap os w a n)) = dangling w"
  by (simp add: call_real_munmap_def split: prod.splits)

lemma dangling_unmap_guard [simp]:
  "dangling (unmap_guard_pages os pgsz w i) = dangling w"
  by (simp add: unmap_guard_pages_def unmap_top_guard_page_def unmap_bottom_guard_page_def)

lemma cache_munmap_exact:
  assumes "use_mapping_cache pol" and "find_entry w a = Some i"
    and "start (entry w i) = a" and "size_m (entry w i) = len"
  shows "g_map_cache_vector (snd (munmap os pol pgsz w a len)) =
           vector_delete_at (g_map_cache_vector w) (cache_index (entry w i))"
  by (simp add: munmap_exact [OF assms])

subsection \<open>Removing a guard page\<close>

text \<open>
  C9, as amended. \<^verbatim>\<open>unmap_top_guard_page\<close> and \<^verbatim>\<open>unmap_bottom_guard_page\<close> call the
  real \<^verbatim>\<open>munmap\<close> once, on the guard page and one page long, when the entry's guard
  field is not \<^verbatim>\<open>NULL\<close>, and leave every entry as it was: the field is not cleared.
  When the field is \<^verbatim>\<open>NULL\<close> they call nothing and change nothing.
\<close>

theorem unmap_guard_page_effect:
  "(guard_top (entry w i) \<noteq> 0 \<longrightarrow>
      calls (unmap_top_guard_page os pgsz w i) = calls w @ [Real_munmap (guard_top (entry w i)) pgsz] \<and>
      g_map_cache_vector (unmap_top_guard_page os pgsz w i) = g_map_cache_vector w) \<and>
   (guard_top (entry w i) = 0 \<longrightarrow> unmap_top_guard_page os pgsz w i = w) \<and>
   (guard_bottom (entry w i) \<noteq> 0 \<longrightarrow>
      calls (unmap_bottom_guard_page os pgsz w i) =
        calls w @ [Real_munmap (guard_bottom (entry w i)) pgsz] \<and>
      g_map_cache_vector (unmap_bottom_guard_page os pgsz w i) = g_map_cache_vector w) \<and>
   (guard_bottom (entry w i) = 0 \<longrightarrow> unmap_bottom_guard_page os pgsz w i = w)"
  by (simp add: unmap_top_guard_page_def unmap_bottom_guard_page_def)

text \<open>An entry with both guard pages, and one created with guard pages off.\<close>

theorem unmap_guard_page_effect_witness:
  "(let w = run os_ok guarding 4096 world0 [Create 0 8192 (PROT_READ OR PROT_WRITE) anon (- 1) 0];
        w' = run os_ok tracking 4096 world0 [Create 0 8192 (PROT_READ OR PROT_WRITE) anon (- 1) 0]
    in guard_top (entry w 0) = 1056768 \<and> guard_bottom (entry w 0) = 1044480 \<and>
       calls (unmap_top_guard_page os_ok 4096 w 0) = calls w @ [Real_munmap 1056768 4096] \<and>
       calls (unmap_bottom_guard_page os_ok 4096 w 0) = calls w @ [Real_munmap 1044480 4096] \<and>
       g_map_cache_vector (unmap_top_guard_page os_ok 4096 w 0) = g_map_cache_vector w \<and>
       g_map_cache_vector (unmap_bottom_guard_page os_ok 4096 w 0) = g_map_cache_vector w \<and>
       guard_top (entry w' 0) = 0 \<and> guard_bottom (entry w' 0) = 0 \<and>
       unmap_top_guard_page os_ok 4096 w' 0 = w' \<and> unmap_bottom_guard_page os_ok 4096 w' 0 = w')"
proof -
  let ?w = "run os_ok guarding 4096 world0 [Create 0 8192 (PROT_READ OR PROT_WRITE) anon (- 1) 0]"
  let ?w' = "run os_ok tracking 4096 world0 [Create 0 8192 (PROT_READ OR PROT_WRITE) anon (- 1) 0]"
  have present: "guard_top (entry ?w 0) = 1056768" "guard_bottom (entry ?w 0) = 1044480"
    by code_simp+
  have absent: "guard_top (entry ?w' 0) = 0" "guard_bottom (entry ?w' 0) = 0"
    by code_simp+
  show ?thesis
    unfolding Let_def
    using unmap_guard_page_effect [of ?w 0 os_ok 4096] unmap_guard_page_effect [of ?w' 0 os_ok 4096]
      present absent
    by simp
qed

text \<open>
  Against C9 as stated: after each of the two functions the guard field still holds
  the address of the page that was unmapped.
\<close>

theorem unmap_guard_page_counterexample:
  "(let w = run os_ok guarding 4096 world0 [Create 0 8192 (PROT_READ OR PROT_WRITE) anon (- 1) 0]
    in guard_top (entry w 0) = 1056768 \<and>
       guard_top (entry (unmap_top_guard_page os_ok 4096 w 0) 0) = 1056768 \<and>
       guard_bottom (entry w 0) = 1044480 \<and>
       guard_bottom (entry (unmap_bottom_guard_page os_ok 4096 w 0) 0) = 1044480 \<and>
       (1056768 :: addr) \<noteq> NULL \<and> (1044480 :: addr) \<noteq> NULL)"
  by code_simp

subsection \<open>Placing a guard page fails\<close>

lemma length_map_guard [simp]:
  "length (g_map_cache_vector (map_bottom_guard_page os pgsz w m)) = length (g_map_cache_vector w)"
  "length (g_map_cache_vector (map_top_guard_page os pgsz w m)) = length (g_map_cache_vector w)"
  using view_map_bottom [of os pgsz w m] view_map_top [of os pgsz w m]
  by (metis length_map view_def)+

lemma fst_map_guard_page:
  "fst (map_guard_page os pgsz w a) =
     fst (g_real_mmap os (kernel w) (get_base_page pgsz a) pgsz PROT_NONE
            (MAP_ANONYMOUS OR MAP_PRIVATE) (- 1) 0)"
  by (simp add: map_guard_page_def call_real_mmap_def split: prod.splits)

text \<open>
  C8, where the code departs from it. When the kernel refuses every guard page and
  the request is tracked and guarded, \<^verbatim>\<open>mmap\<close> still returns the mapping the real
  primitive made and the vector gains its entry; but both guard fields of the entry
  hold \<^verbatim>\<open>MAP_FAILED\<close>, which is not \<^verbatim>\<open>NULL\<close>: the tests \<^verbatim>\<open>if(mce->guard_top)\<close> and
  \<^verbatim>\<open>if(mce->guard_bottom)\<close> take such a guard page for present.
\<close>

theorem mmap_failed_guards_recorded:
  assumes "use_mapping_cache pol" and "enable_guard_pages pol"
    and "\<not> (disallow_rwx pol \<and> prot AND PROT_WRITE \<noteq> 0 \<and> prot AND PROT_EXEC \<noteq> 0)"
    and "\<not> (a \<noteq> 0 \<and> disallow_static_address pol)"
    and "\<forall>k b n flags fd off. fst (g_real_mmap os k b n PROT_NONE flags fd off) = MAP_FAILED"
    and "fst (call_real_mmap os w a len prot flags (- 1) off) = p"
    and "p \<noteq> MAP_FAILED" and "p \<noteq> 0 \<or> len = 0"
  shows "(let r = mmap os pol pgsz w a len prot flags (- 1) off;
              m = last (g_map_cache_vector (snd r))
          in fst r = Returned p \<and>
             length (g_map_cache_vector (snd r)) = Suc (length (g_map_cache_vector w)) \<and>
             start m = p \<and> guard_bottom m = MAP_FAILED \<and> guard_top m = MAP_FAILED \<and>
             MAP_FAILED \<noteq> NULL)"
proof -
  obtain w1 where r: "call_real_mmap os w a len prot flags (- 1) off = (p, w1)"
    using assms(6) by (cases "call_real_mmap os w a len prot flags (- 1) off") simp
  then have c1: "g_map_cache_vector w1 = g_map_cache_vector w"
    using cache_call_real_mmap [of os w a len prot flags "- 1" off] by simp
  let ?n = "length (g_map_cache_vector w)"
  let ?m = "new_mapguard_cache_entry
              \<lparr>start := p, size_m := len,
               immutable_prot := immutable_prot new_mapguard_cache_entry OR prot,
               current_prot := prot, cache_index := ?n\<rparr>"
  let ?w2 = "w1\<lparr>g_map_cache_vector := g_map_cache_vector w @ [?m]\<rparr>"
  have body: "mmap os pol pgsz w a len prot flags (- 1) off =
      (Returned p, map_guard_pages os pgsz ?w2 ?n)"
    using assms(1-4,7) r c1 by (auto simp add: mmap_def Let_def vector_push_def)
  have e2: "entry ?w2 ?n = ?m" and l2: "length (g_map_cache_vector ?w2) = Suc ?n"
    by (simp_all add: entry_def)
  let ?w3 = "map_bottom_guard_page os pgsz ?w2 (Some ?n)"
  let ?w4 = "map_top_guard_page os pgsz ?w3 (Some ?n)"
  have failed: "fst (map_guard_page os pgsz x b) = MAP_FAILED" for x :: "'a world" and b
    using assms(5) by (simp add: fst_map_guard_page)
  have "\<not> (start (entry ?w2 ?n) = 0 \<and> size_m (entry ?w2 ?n) \<noteq> 0)"
    using assms(8) unfolding e2 by auto
  then have g: "map_guard_pages os pgsz ?w2 ?n = ?w4"
    by (simp only: map_guard_pages_def if_False)
  have e3: "entry ?w3 ?n = ?m\<lparr>guard_bottom := MAP_FAILED\<rparr>"
    using e2 l2 failed by (simp add: entry_map_bottom del: map_bottom_guard_page.simps)
  have l3: "length (g_map_cache_vector ?w3) = Suc ?n"
    using l2 by (simp del: map_bottom_guard_page.simps)
  have e4: "entry ?w4 ?n = ?m\<lparr>guard_bottom := MAP_FAILED, guard_top := MAP_FAILED\<rparr>"
    using e3 l3 failed
    by (simp add: entry_map_top del: map_top_guard_page.simps map_bottom_guard_page.simps)
  have l4: "length (g_map_cache_vector ?w4) = Suc ?n"
    using l3 by (simp del: map_top_guard_page.simps map_bottom_guard_page.simps)
  then have "last (g_map_cache_vector ?w4) = entry ?w4 ?n"
    by (metis diff_Suc_1 entry_def last_conv_nth length_0_conv nat.distinct(1))
  then show ?thesis
    unfolding Let_def body g using e4 l4
    by (simp add: MAP_FAILED_def NULL_def del: map_top_guard_page.simps map_bottom_guard_page.simps)
qed

text \<open>
  With the kernel that has no room for guard pages: the mapping is returned, both
  guard fields are \<^verbatim>\<open>MAP_FAILED\<close>, and an exact-match \<^verbatim>\<open>munmap\<close> later asks the
  real \<^verbatim>\<open>munmap\<close> to unmap \<^verbatim>\<open>MAP_FAILED\<close> twice.
\<close>

lemma no_guard_kernel:
  "\<forall>k b n flags fd off. fst (g_real_mmap os_no_guard k b n PROT_NONE flags fd off) = MAP_FAILED"
  by (simp add: os_no_guard_def os_ok_def)

theorem mmap_failed_guards_recorded_witness:
  "(let r = mmap os_no_guard guarding 4096 world0 0 8192 (PROT_READ OR PROT_WRITE) anon (- 1) 0;
        m = last (g_map_cache_vector (snd r));
        r' = munmap os_no_guard guarding 4096 (snd r) 1048576 8192
    in fst r = Returned 1048576 \<and> length (g_map_cache_vector (snd r)) = 1 \<and>
       start m = 1048576 \<and> guard_bottom m = MAP_FAILED \<and> guard_top m = MAP_FAILED \<and>
       MAP_FAILED \<noteq> NULL \<and>
       calls (snd r') = calls (snd r) @
         [Real_munmap MAP_FAILED 4096, Real_munmap MAP_FAILED 4096, Real_munmap 1048576 8192])"
proof -
  have primary: "fst (call_real_mmap os_no_guard world0 0 8192 (PROT_READ OR PROT_WRITE) anon (- 1) 0)
      = 1048576"
    by code_simp
  have recorded: "(let r = mmap os_no_guard guarding 4096 world0 0 8192 (PROT_READ OR PROT_WRITE) anon (- 1) 0;
        m = last (g_map_cache_vector (snd r))
    in fst r = Returned 1048576 \<and> length (g_map_cache_vector (snd r)) = Suc (length (g_map_cache_vector world0)) \<and>
       start m = 1048576 \<and> guard_bottom m = MAP_FAILED \<and> guard_top m = MAP_FAILED \<and>
       MAP_FAILED \<noteq> NULL)"
    using mmap_failed_guards_recorded [of guarding "PROT_READ OR PROT_WRITE" 0 os_no_guard
        world0 8192 anon 0 1048576 4096] no_guard_kernel primary
    by (simp add: policies header_consts)
  have later: "(let r = mmap os_no_guard guarding 4096 world0 0 8192 (PROT_READ OR PROT_WRITE) anon (- 1) 0;
        r' = munmap os_no_guard guarding 4096 (snd r) 1048576 8192
    in calls (snd r') = calls (snd r) @
         [Real_munmap MAP_FAILED 4096, Real_munmap MAP_FAILED 4096, Real_munmap 1048576 8192])"
    by code_simp
  show ?thesis
    using recorded later unfolding Let_def by (simp add: world0_def)
qed

subsection \<open>Relocate\<close>

text \<open>
  C5, where the code departs from it. \<^verbatim>\<open>mremap\<close> updates the entry only under
  \<^verbatim>\<open>mce->guard_bottom || mce->guard_top\<close>: for an entry whose guard fields are both
  \<^verbatim>\<open>NULL\<close> (guard pages off) the vector is left as it was, whatever the real
  \<^verbatim>\<open>mremap\<close> returned, so \<^verbatim>\<open>start\<close> and \<^verbatim>\<open>size\<close> keep the old address and length.
\<close>

theorem mremap_without_guards:
  assumes "find_entry w a = Some i"
    and "guard_bottom (entry w i) = 0" and "guard_top (entry w i) = 0"
  shows "g_map_cache_vector (snd (mremap os pol pgsz w a old_len new_len flags)) = g_map_cache_vector w \<and>
         fst (mremap os pol pgsz w a old_len new_len flags) =
           fst (call_real_mremap os w a old_len new_len flags)"
proof -
  obtain p w1 where r: "call_real_mremap os w a old_len new_len flags = (p, w1)"
    and c: "g_map_cache_vector w1 = g_map_cache_vector w"
    by (rule call_real_mremap_cases)
  have "find_entry w1 a = Some i" "entry w1 i = entry w i"
    using assms(1) c by (simp_all add: find_entry_def entry_def)
  then have "mremap os pol pgsz w a old_len new_len flags = (p, w1)"
    using r assms(2,3) by (simp add: mremap_def)
  then show ?thesis using r c by simp
qed

text \<open>
  Cache on, guard pages off: the real \<^verbatim>\<open>mremap\<close> moves the mapping to a new address
  and the entry still has the old address and the old length.
\<close>

lemma moved_world:
  "run os_ok tracking 4096 world0 [Create 0 4096 (PROT_READ OR PROT_WRITE) anon (- 1) 0] =
     \<lparr>g_map_cache_vector =
        [\<lparr>start = 1048576, size_m = 4096, guard_bottom = 0, guard_top = 0,
          immutable_prot = 3, current_prot = 3, cache_index = 0, xom_enabled = 0,
          pkey_access_rights = 0, pkey = 0\<rparr>],
      kernel = 1118208, errno = 0,
      calls = [Real_mmap 0 4096 3 34 (- 1) 0],
      dangling = []\<rparr>"
  by code_simp

theorem mremap_without_guards_witness:
  "(let w = run os_ok tracking 4096 world0 [Create 0 4096 (PROT_READ OR PROT_WRITE) anon (- 1) 0];
        r = mremap os_ok tracking 4096 w 1048576 4096 8192 MREMAP_MAYMOVE
    in find_entry w 1048576 = Some 0 \<and> fst r = 1118208 \<and> fst r \<noteq> MAP_FAILED \<and>
       g_map_cache_vector (snd r) = g_map_cache_vector w \<and>
       start (entry (snd r) 0) = 1048576 \<and> size_m (entry (snd r) 0) = 4096)"
  using mremap_without_guards [of
      "run os_ok tracking 4096 world0 [Create 0 4096 (PROT_READ OR PROT_WRITE) anon (- 1) 0]"
      1048576 0 os_ok tracking 4096 4096 8192 MREMAP_MAYMOVE]
  unfolding moved_world
  by (simp add: Let_def entry_def find_entry_def vector_for_each_def is_mapguard_entry_cached_def
      call_real_mremap_def os_ok_def header_consts)

subsection \<open>Remove\<close>

text \<open>
  C6, where the code departs from it. An exact-match \<^verbatim>\<open>munmap\<close> of the entry at
  position \<open>i\<close> (its \<^verbatim>\<open>cache_index\<close> being \<open>i\<close>) deletes it from the vector, and every
  entry behind it moves one position down with all its fields as they were, its
  \<^verbatim>\<open>cache_index\<close> included: \<^verbatim>\<open>munmap\<close> fixes up no index, and the vector knows
  nothing of the entries.
\<close>

theorem munmap_exact_moves_entries:
  assumes "use_mapping_cache pol" and "find_entry w a = Some i"
    and "start (entry w i) = a" and "size_m (entry w i) = len"
    and "cache_index (entry w i) = i"
  shows "(let w' = snd (munmap os pol pgsz w a len) in
            Suc (length (g_map_cache_vector w')) = length (g_map_cache_vector w) \<and>
            (\<forall>j. i \<le> j \<and> Suc j < length (g_map_cache_vector w) \<longrightarrow>
                 entry w' j = entry w (Suc j)))"
proof -
  have i: "i < length (g_map_cache_vector w)"
    using assms(2) by (simp add: find_entry_Some)
  have c: "g_map_cache_vector (snd (munmap os pol pgsz w a len)) =
      take i (g_map_cache_vector w) @ drop (Suc i) (g_map_cache_vector w)"
    using cache_munmap_exact [OF assms(1-4), of os pgsz] assms(5) i
    by (simp add: vector_delete_at_def)
  show ?thesis
    unfolding Let_def entry_def c using i
    by (auto simp add: nth_append min_def)
qed

text \<open>
  Two mappings, the first removed: the second entry is at position 0 and its
  \<^verbatim>\<open>cache_index\<close> is still 1.
\<close>

theorem munmap_exact_moves_entries_witness:
  "(let w = run os_ok tracking 4096 world0
              [Create 0 4096 (PROT_READ OR PROT_WRITE) anon (- 1) 0,
               Create 0 4096 (PROT_READ OR PROT_WRITE) anon (- 1) 0];
        r = munmap os_ok tracking 4096 w 1048576 4096
    in find_entry w 1048576 = Some 0 \<and> start (entry w 0) = 1048576 \<and> size_m (entry w 0) = 4096 \<and>
       cache_index (entry w 0) = 0 \<and> cache_index (entry w 1) = 1 \<and>
       length (g_map_cache_vector w) = 2 \<and> fst r = 0 \<and>
       length (g_map_cache_vector (snd r)) = 1 \<and> entry (snd r) 0 = entry w 1 \<and>
       cache_index (entry (snd r) 0) = 1)"
proof -
  let ?w = "run os_ok tracking 4096 world0
              [Create 0 4096 (PROT_READ OR PROT_WRITE) anon (- 1) 0,
               Create 0 4096 (PROT_READ OR PROT_WRITE) anon (- 1) 0]"
  let ?r = "munmap os_ok tracking 4096 ?w 1048576 4096"
  have found: "find_entry ?w 1048576 = Some 0" "start (entry ?w 0) = 1048576"
      "size_m (entry ?w 0) = 4096" "cache_index (entry ?w 0) = 0"
    by code_simp+
  have two: "cache_index (entry ?w 1) = 1" "length (g_map_cache_vector ?w) = 2" "fst ?r = 0"
    by code_simp+
  have cache: "use_mapping_cache tracking"
    by (simp add: policies)
  have "Suc (length (g_map_cache_vector (snd ?r))) = length (g_map_cache_vector ?w) \<and>
      (\<forall>j. 0 \<le> j \<and> Suc j < length (g_map_cache_vector ?w) \<longrightarrow> entry (snd ?r) j = entry ?w (Suc j))"
    using munmap_exact_moves_entries [OF cache found, of os_ok 4096]
    unfolding Let_def .
  then have moved: "length (g_map_cache_vector (snd ?r)) = 1" "entry (snd ?r) 0 = entry ?w 1"
    using two(2) by auto
  show ?thesis
    unfolding Let_def using found two moved by simp
qed

text \<open>
  The two readings of removal at an index agree on the last and on the last but one
  position of a vector.
\<close>

lemma delete_strategies_agree:
  assumes "length v \<le> Suc (Suc i)"
  shows "vector_delete_at_swap v i = vector_delete_at v i"
proof -
  consider "length v \<le> i" | "length v = Suc i" | "length v = Suc (Suc i)"
    using assms by linarith
  then show ?thesis
  proof cases
    case 1
    then show ?thesis by (simp add: vector_delete_at_swap_def vector_delete_at_def)
  next
    case 2
    then have "v[i := last v] = v"
      by (metis diff_Suc_1 last_conv_nth length_0_conv list_update_id nat.distinct(1))
    then show ?thesis
      using 2 by (simp add: vector_delete_at_swap_def vector_delete_at_def butlast_conv_take)
  next
    case 3
    then have "v \<noteq> []" by auto
    have "butlast (v[i := last v]) = take i v @ drop (Suc i) v"
    proof (rule nth_equalityI)
      show "length (butlast (v[i := last v])) = length (take i v @ drop (Suc i) v)"
        using 3 by simp
    next
      fix j
      assume "j < length (butlast (v[i := last v]))"
      then have "j \<le> i" using 3 by simp
      then show "butlast (v[i := last v]) ! j = (take i v @ drop (Suc i) v) ! j"
        using 3 \<open>v \<noteq> []\<close>
        by (cases "j = i")
          (simp_all add: nth_butlast nth_list_update nth_append last_conv_nth)
    qed
    then show ?thesis
      using 3 by (simp add: vector_delete_at_swap_def vector_delete_at_def)
  qed
qed

text \<open>
  C4, where the code departs from it. \<^verbatim>\<open>munmap\<close> deletes the position
  \<^verbatim>\<open>mce->cache_index\<close>, not the position where the lookup found the entry. When the
  entry's \<^verbatim>\<open>cache_index\<close> is a later position of the vector (as an earlier removal
  leaves it), an exact-match \<^verbatim>\<open>munmap\<close> takes the slot of that other entry out of
  the vector: the slots before it stay, those behind it close the gap. The slot of the
  entry that was to be removed is still in the vector, and \<^verbatim>\<open>free(mce)\<close> leaves it
  dangling. (Nothing is said of what a later lookup reads there.)
\<close>

theorem munmap_exact_stale_index:
  assumes "use_mapping_cache pol" and "find_entry w a = Some i"
    and "start (entry w i) = a" and "size_m (entry w i) = len"
    and "i < cache_index (entry w i)"
    and "cache_index (entry w i) < length (g_map_cache_vector w)"
  shows "(let w' = snd (munmap os pol pgsz w a len); k = cache_index (entry w i) in
            Suc (length (g_map_cache_vector w')) = length (g_map_cache_vector w) \<and>
            (\<forall>j < k. j \<noteq> i \<longrightarrow> entry w' j = entry w j) \<and>
            (\<forall>j. k \<le> j \<and> Suc j < length (g_map_cache_vector w) \<longrightarrow> entry w' j = entry w (Suc j)) \<and>
            i \<in> set (dangling w'))"
proof -
  let ?v = "g_map_cache_vector w"
  let ?k = "cache_index (entry w i)"
  let ?w' = "snd (munmap os pol pgsz w a len)"
  have c: "g_map_cache_vector ?w' = take ?k ?v @ drop (Suc ?k) ?v"
    using cache_munmap_exact [OF assms(1-4), of os pgsz] assms(6)
    by (simp add: vector_delete_at_def)
  have d: "i \<in> set (dangling ?w')"
    using assms(5,6)
    by (simp add: munmap_exact [OF assms(1-4)] free_mce_def slot_after_delete_def)
  have "Suc (length (g_map_cache_vector ?w')) = length ?v"
    unfolding c using assms(6) by simp
  moreover have "entry ?w' j = entry w j" if "j < ?k" for j
    using that assms(6) by (simp add: entry_def [of ?w'] entry_def [of w j] c nth_append)
  moreover have "entry ?w' j = entry w (Suc j)" if "?k \<le> j" "Suc j < length ?v" for j
    using that assms(6)
    by (simp add: entry_def [of ?w'] entry_def [of w "Suc j"] c nth_append min_def)
  ultimately show ?thesis
    unfolding Let_def using d by blast
qed

text \<open>
  Four mappings A, B, C and D, B removed before D is made; then C is removed. The
  lookup finds C at position 1 with \<^verbatim>\<open>cache_index\<close> 2: the slot of D is deleted, the
  vector keeps two slots, that of A and the dangling one of C, and the mapping D,
  which is still there, has no slot. Both removals delete where the two readings of
  "swap-with-last/compaction" agree.
\<close>

theorem munmap_exact_stale_index_witness:
  "(let w0 = run os_ok tracking 4096 world0
               [Create 0 4096 (PROT_READ OR PROT_WRITE) anon (- 1) 0,
                Create 0 4096 (PROT_READ OR PROT_WRITE) anon (- 1) 0,
                Create 0 4096 (PROT_READ OR PROT_WRITE) anon (- 1) 0];
        w = run os_ok tracking 4096 w0
              [Remove 1118208 4096, Create 0 4096 (PROT_READ OR PROT_WRITE) anon (- 1) 0];
        r = munmap os_ok tracking 4096 w 1187840 4096
    in vector_delete_at_swap (g_map_cache_vector w0) 1 = vector_delete_at (g_map_cache_vector w0) 1 \<and>
       vector_delete_at_swap (g_map_cache_vector w) 2 = vector_delete_at (g_map_cache_vector w) 2 \<and>
       length (g_map_cache_vector w) = 3 \<and> dangling w = [] \<and>
       start (entry w 0) = 1048576 \<and> start (entry w 2) = 1257472 \<and>
       find_entry w 1187840 = Some 1 \<and> start (entry w 1) = 1187840 \<and>
       size_m (entry w 1) = 4096 \<and> cache_index (entry w 1) = 2 \<and>
       fst r = 0 \<and> last (calls (snd r)) = Real_munmap 1187840 4096 \<and>
       length (g_map_cache_vector (snd r)) = 2 \<and> entry (snd r) 0 = entry w 0 \<and>
       dangling (snd r) = [1])"
proof -
  let ?u = "run os_ok tracking 4096 world0
               [Create 0 4096 (PROT_READ OR PROT_WRITE) anon (- 1) 0,
                Create 0 4096 (PROT_READ OR PROT_WRITE) anon (- 1) 0,
                Create 0 4096 (PROT_READ OR PROT_WRITE) anon (- 1) 0]"
  let ?w = "run os_ok tracking 4096 ?u
              [Remove 1118208 4096, Create 0 4096 (PROT_READ OR PROT_WRITE) anon (- 1) 0]"
  let ?r = "munmap os_ok tracking 4096 ?w 1187840 4096"
  have three: "length (g_map_cache_vector ?u) = 3" "length (g_map_cache_vector ?w) = 3"
    by code_simp+
  have agree: "vector_delete_at_swap (g_map_cache_vector ?u) 1 = vector_delete_at (g_map_cache_vector ?u) 1"
      "vector_delete_at_swap (g_map_cache_vector ?w) 2 = vector_delete_at (g_map_cache_vector ?w) 2"
    using three by (simp_all add: delete_strategies_agree)
  have found: "find_entry ?w 1187840 = Some 1" "start (entry ?w 1) = 1187840"
      "size_m (entry ?w 1) = 4096"
    by code_simp+
  have stale: "cache_index (entry ?w 1) = 2"
    by code_simp
  have others: "dangling ?w = []" "start (entry ?w 0) = 1048576" "start (entry ?w 2) = 1257472"
      "fst ?r = 0" "last (calls (snd ?r)) = Real_munmap 1187840 4096" "dangling (snd ?r) = [1]"
    by code_simp+
  have cache: "use_mapping_cache tracking"
    by (simp add: policies)
  have "Suc (length (g_map_cache_vector (snd ?r))) = length (g_map_cache_vector ?w) \<and>
      (\<forall>j < 2. j \<noteq> 1 \<longrightarrow> entry (snd ?r) j = entry ?w j)"
    using munmap_exact_stale_index [OF cache found, of os_ok 4096] stale three(2)
    unfolding Let_def by simp
  then have kept: "length (g_map_cache_vector (snd ?r)) = 2" "entry (snd ?r) 0 = entry ?w 0"
    using three(2) by auto
  show ?thesis
    unfolding Let_def
    by (intro conjI) (rule agree three(2) found stale others kept)+
qed

text \<open>
  C7, where the code departs from it. On a partial \<^verbatim>\<open>munmap\<close> of a tracked range
  the entry's \<^verbatim>\<open>size\<close> is reduced, and for a leading removal its \<^verbatim>\<open>start\<close> advanced,
  before the real \<^verbatim>\<open>munmap\<close> is called; nothing is restored when that call fails. The
  fields change whatever the real primitive answers.
\<close>

theorem munmap_partial_updates_first:
  assumes "use_mapping_cache pol" and "find_entry w a = Some i"
    and "start (entry w i) \<noteq> a \<or> size_m (entry w i) \<noteq> len"
  shows "(let w' = snd (munmap os pol pgsz w a len) in
            size_m (entry w' i) = size_m (entry w i) - len \<and>
            (start (entry w i) = a \<longrightarrow> start (entry w' i) = a + len))"
proof -
  have i: "i < length (g_map_cache_vector w)"
    using assms(2) by (simp add: find_entry_Some)
  show ?thesis
    using assms i
    by (auto simp add: munmap_def Let_def entry_set_entry entry_map_top entry_map_bottom
        simp del: map_top_guard_page.simps map_bottom_guard_page.simps
        split: prod.splits dest!: call_real_munmap_entry)
qed

text \<open>
  With a kernel whose \<open>munmap\<close> fails: the hook returns \<^verbatim>\<open>ERROR\<close>, and the entry
  of the two-page mapping has lost its first page; an exact-match \<^verbatim>\<open>munmap\<close> returns
  \<^verbatim>\<open>ERROR\<close> and the entry is gone.
\<close>

theorem munmap_partial_updates_first_witness:
  "(let w = run os_munmap_fails tracking 4096 world0
              [Create 0 8192 (PROT_READ OR PROT_WRITE) anon (- 1) 0];
        r = munmap os_munmap_fails tracking 4096 w 1048576 4096;
        r' = munmap os_munmap_fails tracking 4096 w 1048576 8192
    in find_entry w 1048576 = Some 0 \<and> start (entry w 0) = 1048576 \<and> size_m (entry w 0) = 8192 \<and>
       fst r = ERROR \<and> start (entry (snd r) 0) = 1052672 \<and> size_m (entry (snd r) 0) = 4096 \<and>
       fst r' = ERROR \<and> g_map_cache_vector (snd r') = [])"
proof -
  let ?w = "run os_munmap_fails tracking 4096 world0
              [Create 0 8192 (PROT_READ OR PROT_WRITE) anon (- 1) 0]"
  let ?r = "munmap os_munmap_fails tracking 4096 ?w 1048576 4096"
  let ?r' = "munmap os_munmap_fails tracking 4096 ?w 1048576 8192"
  have found: "find_entry ?w 1048576 = Some 0"
    by code_simp
  have tracked: "start (entry ?w 0) = 1048576" "size_m (entry ?w 0) = 8192"
    by code_simp+
  have failed: "fst ?r = ERROR" "fst ?r' = ERROR" "g_map_cache_vector (snd ?r') = []"
    by code_simp+
  have cache: "use_mapping_cache tracking"
    by (simp add: policies)
  have "size_m (entry (snd ?r) 0) = size_m (entry ?w 0) - 4096 \<and>
      (start (entry ?w 0) = 1048576 \<longrightarrow> start (entry (snd ?r) 0) = 1048576 + 4096)"
    using munmap_partial_updates_first [OF cache found, of 4096 os_munmap_fails 4096] tracked
    unfolding Let_def by simp
  then have "start (entry (snd ?r) 0) = 1052672" "size_m (entry (snd ?r) 0) = 4096"
    using tracked by simp_all
  then show ?thesis
    unfolding Let_def using found tracked failed by simp
qed

subsection \<open>Where the hooks do what the specification says\<close>

lemma vector_scan_None: "vector_scan n v fe d = None \<longleftrightarrow> (\<forall>x \<in> set v. \<not> fe x d)"
  by (induction v arbitrary: n) auto

lemma find_entry_None:
  "find_entry w b = None \<longleftrightarrow>
     (\<forall>x \<in> set (g_map_cache_vector w). \<not> is_mapguard_entry_cached x b)"
  by (simp add: find_entry_def vector_for_each_def vector_scan_None)

lemma set_delete_nth:
  assumes "x \<in> set (take i v @ drop (Suc i) v)"
  shows "\<exists>j < length v. j \<noteq> i \<and> x = v ! j"
proof -
  from assms consider "x \<in> set (take i v)" | "x \<in> set (drop (Suc i) v)"
    by auto
  then show ?thesis
  proof cases
    case 1
    then obtain j where "j < length (take i v)" "x = take i v ! j"
      by (metis in_set_conv_nth)
    then show ?thesis by (intro exI [of _ j]) auto
  next
    case 2
    then obtain j where "j < length (drop (Suc i) v)" "x = drop (Suc i) v ! j"
      by (metis in_set_conv_nth)
    then show ?thesis by (intro exI [of _ "Suc i + j"]) auto
  qed
qed

lemma calls_unmap_guard_pages:
  "calls (unmap_guard_pages os pgsz w i) =
     calls w @
     (if guard_bottom (entry w i) \<noteq> 0 then [Real_munmap (guard_bottom (entry w i)) pgsz] else []) @
     (if guard_top (entry w i) \<noteq> 0 then [Real_munmap (guard_top (entry w i)) pgsz] else [])"
  by (simp add: unmap_guard_pages_def unmap_top_guard_page_def unmap_bottom_guard_page_def entry_def)

lemma calls_cache_update [simp]: "calls (w\<lparr>g_map_cache_vector := v\<rparr>) = calls w"
  by simp

text \<open>
  The exact-match branch of \<^verbatim>\<open>munmap\<close>, for an entry whose \<^verbatim>\<open>cache_index\<close> is its
  position: the guard pages that are present are unmapped, the bottom one first, then
  the entry is deleted from the vector and freed, then the real \<^verbatim>\<open>munmap\<close> is
  called. An address that no other entry covers is found in no entry afterwards, and
  no dangling pointer is left in the vector if there was none.
\<close>

theorem munmap_exact_removes:
  assumes "use_mapping_cache pol" and "find_entry w a = Some i"
    and "start (entry w i) = a" and "size_m (entry w i) = len"
    and "cache_index (entry w i) = i"
    and "\<forall>j < length (g_map_cache_vector w). j \<noteq> i \<longrightarrow> \<not> is_mapguard_entry_cached (entry w j) b"
  shows "(let r = munmap os pol pgsz w a len in
            calls (snd r) =
              calls w @
              (if guard_bottom (entry w i) \<noteq> 0
               then [Real_munmap (guard_bottom (entry w i)) pgsz] else []) @
              (if guard_top (entry w i) \<noteq> 0
               then [Real_munmap (guard_top (entry w i)) pgsz] else []) @
              [Real_munmap a len] \<and>
            g_map_cache_vector (snd r) =
              take i (g_map_cache_vector w) @ drop (Suc i) (g_map_cache_vector w) \<and>
            find_entry (snd r) b = None \<and>
            (dangling w = [] \<longrightarrow> dangling (snd r) = []))"
proof -
  let ?v = "g_map_cache_vector w"
  have i: "i < length ?v"
    using assms(2) by (simp add: find_entry_Some)
  have c: "g_map_cache_vector (snd (munmap os pol pgsz w a len)) = take i ?v @ drop (Suc i) ?v"
    using cache_munmap_exact [OF assms(1-4), of os pgsz] assms(5) i
    by (simp add: vector_delete_at_def)
  have "\<not> is_mapguard_entry_cached x b" if "x \<in> set (take i ?v @ drop (Suc i) ?v)" for x
    using set_delete_nth [OF that] assms(6) by (auto simp add: entry_def)
  then have none: "find_entry (snd (munmap os pol pgsz w a len)) b = None"
    unfolding find_entry_None c by blast
  have "calls (snd (munmap os pol pgsz w a len)) =
      calls (unmap_guard_pages os pgsz w i) @ [Real_munmap a len]"
    by (simp add: munmap_exact [OF assms(1-4)])
  moreover have "dangling (snd (munmap os pol pgsz w a len)) = []" if "dangling w = []"
    using that assms(5) by (simp add: munmap_exact [OF assms(1-4)] free_mce_def)
  ultimately show ?thesis
    unfolding Let_def using c none by (simp add: calls_unmap_guard_pages)
qed

text \<open>
  The scenario of the specification: a mapping of two pages with its two guard pages
  is removed; the store is empty afterwards and both guard pages were unmapped.
\<close>

theorem munmap_exact_removes_witness:
  "(let w = run os_ok guarding 4096 world0 [Create 0 8192 (PROT_READ OR PROT_WRITE) anon (- 1) 0];
        r = munmap os_ok guarding 4096 w 1048576 8192
    in length (g_map_cache_vector w) = 1 \<and> guard_bottom (entry w 0) = 1044480 \<and>
       guard_top (entry w 0) = 1056768 \<and> fst r = 0 \<and>
       calls (snd r) = calls w @
         [Real_munmap 1044480 4096, Real_munmap 1056768 4096, Real_munmap 1048576 8192] \<and>
       g_map_cache_vector (snd r) = [] \<and> find_entry (snd r) 1052672 = None \<and>
       dangling (snd r) = [])"
proof -
  let ?w = "run os_ok guarding 4096 world0 [Create 0 8192 (PROT_READ OR PROT_WRITE) anon (- 1) 0]"
  let ?r = "munmap os_ok guarding 4096 ?w 1048576 8192"
  have found: "find_entry ?w 1048576 = Some 0" "start (entry ?w 0) = 1048576"
      "size_m (entry ?w 0) = 8192" "cache_index (entry ?w 0) = 0"
    by code_simp+
  have one: "length (g_map_cache_vector ?w) = 1"
    by code_simp
  have guards: "guard_bottom (entry ?w 0) = 1044480" "guard_top (entry ?w 0) = 1056768" "fst ?r = 0"
    by code_simp+
  have cache: "use_mapping_cache guarding"
    by (simp add: policies)
  have alone: "\<forall>j < length (g_map_cache_vector ?w). j \<noteq> 0 \<longrightarrow>
      \<not> is_mapguard_entry_cached (entry ?w j) 1052672"
    using one by simp
  have clean: "dangling ?w = []"
    by code_simp
  show ?thesis
    using munmap_exact_removes [OF cache found alone, of os_ok 4096] one guards clean
    unfolding Let_def by simp
qed

text \<open>
  A file-backed request (\<^verbatim>\<open>fd != -1\<close>) goes to the real \<^verbatim>\<open>mmap\<close> as it is, whatever
  the policy: no test applies and no entry is made.
\<close>

theorem mmap_file_backed:
  assumes "fd \<noteq> - 1"
  shows "(let r = mmap os pol pgsz w a len prot flags fd off in
            fst r = Returned (fst (call_real_mmap os w a len prot flags fd off)) \<and>
            g_map_cache_vector (snd r) = g_map_cache_vector w \<and>
            calls (snd r) = calls w @ [Real_mmap a len prot flags fd off])"
  using assms by (simp add: mmap_def call_real_mmap_def split: prod.splits)

text \<open>Every switch on, a request for all three permissions at a fixed address, on a file.\<close>

theorem mmap_file_backed_witness:
  "(let pol = \<lparr>disallow_rwx = True, disallow_transition_to_x = True,
               disallow_transition_from_x = True, disallow_static_address = True,
               enable_guard_pages = True, panic_on_violation = True, poison_on_allocation = True,
               use_mapping_cache = True, enable_syslog = True\<rparr>;
        r = mmap os_ok pol 4096 world0 1048576 4096 (PROT_READ OR PROT_WRITE OR PROT_EXEC)
              MAP_PRIVATE 3 0
    in (3 :: cint) \<noteq> - 1 \<and> fst r = Returned 1048576 \<and> g_map_cache_vector (snd r) = [] \<and>
       calls (snd r) = [Real_mmap 1048576 4096 (PROT_READ OR PROT_WRITE OR PROT_EXEC) MAP_PRIVATE 3 0])"
  using mmap_file_backed [of 3 os_ok "\<lparr>disallow_rwx = True, disallow_transition_to_x = True,
               disallow_transition_from_x = True, disallow_static_address = True,
               enable_guard_pages = True, panic_on_violation = True, poison_on_allocation = True,
               use_mapping_cache = True, enable_syslog = True\<rparr>" 4096 world0 1048576 4096
      "PROT_READ OR PROT_WRITE OR PROT_EXEC" MAP_PRIVATE 0]
  by (simp add: Let_def world0_def call_real_mmap_def os_ok_def)

lemma calls_call_real_mmap [simp]:
  "calls (snd (call_real_mmap os w a n prot flags fd off)) = calls w @ [Real_mmap a n prot flags fd off]"
  by (simp add: call_real_mmap_def split: prod.splits)

lemma calls_call_real_mremap [simp]:
  "calls (snd (call_real_mremap os w a n n' flags)) = calls w @ [Real_mremap a n n' flags]"
  by (simp add: call_real_mremap_def split: prod.splits)

lemma calls_set_entry [simp]: "calls (set_entry w i m) = calls w"
  by (simp add: set_entry_def)

lemma call_real_mmap_calls:
  "call_real_mmap os w a n prot flags fd off = (p, w1) \<Longrightarrow>
     calls w1 = calls w @ [Real_mmap a n prot flags fd off]"
  by (auto simp add: call_real_mmap_def split: prod.splits)

lemma calls_map_bottom:
  "calls (map_bottom_guard_page os pgsz w (Some i)) =
     calls w @ [Real_mmap (get_base_page pgsz (get_base_page pgsz (start (entry w i) - 1))) pgsz
                  PROT_NONE (MAP_ANONYMOUS OR MAP_PRIVATE) (- 1) 0]"
  by (auto simp add: map_guard_page_def split: prod.splits dest: call_real_mmap_calls)

lemma calls_map_top:
  "calls (map_top_guard_page os pgsz w (Some i)) =
     calls w @ [Real_mmap (get_base_page pgsz
                  (ROUND_UP_PAGE pgsz (start (entry w i) + size_m (entry w i)))) pgsz
                  PROT_NONE (MAP_ANONYMOUS OR MAP_PRIVATE) (- 1) 0]"
  by (auto simp add: map_guard_page_def split: prod.splits dest: call_real_mmap_calls)

text \<open>
  \<^verbatim>\<open>mremap\<close> on an entry that has a guard page: when the real \<^verbatim>\<open>mremap\<close> succeeds,
  the entry takes the address returned and the new length; both old guard fields are
  handed to the real \<^verbatim>\<open>munmap\<close>, and (unless the new address is \<^verbatim>\<open>NULL\<close> with a
  length) one page without permissions is asked for at the page below the new start
  and one at the page boundary at or above the new end.
\<close>

theorem mremap_with_guards:
  assumes "use_mapping_cache pol" and "find_entry w a = Some i"
    and "guard_bottom (entry w i) \<noteq> 0 \<or> guard_top (entry w i) \<noteq> 0"
    and "fst (call_real_mremap os w a old_len new_len flags) = p" and "p \<noteq> MAP_FAILED"
  shows "(let r = mremap os pol pgsz w a old_len new_len flags in
            fst r = p \<and> start (entry (snd r) i) = p \<and> size_m (entry (snd r) i) = new_len \<and>
            (p \<noteq> 0 \<or> new_len = 0 \<longrightarrow>
               calls (snd r) =
                 calls w @
                 [Real_mremap a old_len new_len flags,
                  Real_munmap (guard_bottom (entry w i)) pgsz,
                  Real_munmap (guard_top (entry w i)) pgsz,
                  Real_mmap (get_base_page pgsz (get_base_page pgsz (p - 1))) pgsz
                    PROT_NONE (MAP_ANONYMOUS OR MAP_PRIVATE) (- 1) 0,
                  Real_mmap (get_base_page pgsz (ROUND_UP_PAGE pgsz (p + new_len))) pgsz
                    PROT_NONE (MAP_ANONYMOUS OR MAP_PRIVATE) (- 1) 0]))"
proof -
  obtain w1 where r: "call_real_mremap os w a old_len new_len flags = (p, w1)"
    using assms(4) by (cases "call_real_mremap os w a old_len new_len flags") simp
  have c1: "g_map_cache_vector w1 = g_map_cache_vector w"
    using cache_call_real_mremap [of os w a old_len new_len flags] r by simp
  have k1: "calls w1 = calls w @ [Real_mremap a old_len new_len flags]"
    using calls_call_real_mremap [of os w a old_len new_len flags] r by simp
  have e1: "entry w1 = entry w"
    using c1 by (intro ext) (simp add: entry_def)
  have f1: "find_entry w1 a = Some i"
    using assms(2) c1 by (simp add: find_entry_def)
  have i: "i < length (g_map_cache_vector w)"
    using assms(2) by (simp add: find_entry_Some)
  let ?w2 = "snd (call_real_munmap os w1 (guard_bottom (entry w i)) pgsz)"
  let ?w3 = "snd (call_real_munmap os ?w2 (guard_top (entry w i)) pgsz)"
  let ?m = "(entry w i)\<lparr>start := p, size_m := new_len\<rparr>"
  let ?w4 = "set_entry ?w3 i ?m"
  have body: "mremap os pol pgsz w a old_len new_len flags = (p, map_guard_pages os pgsz ?w4 i)"
    using assms(1,3,5) r f1 by (simp add: mremap_def e1 Let_def)
  have l4: "i < length (g_map_cache_vector ?w4)"
    using i c1 by simp
  have e4: "entry ?w4 i = ?m"
    using i c1 by (simp add: entry_set_entry)
  have k4: "calls ?w4 = calls w @ [Real_mremap a old_len new_len flags,
      Real_munmap (guard_bottom (entry w i)) pgsz, Real_munmap (guard_top (entry w i)) pgsz]"
    using k1 by simp
  let ?w5 = "map_bottom_guard_page os pgsz ?w4 (Some i)"
  let ?w6 = "map_top_guard_page os pgsz ?w5 (Some i)"
  have e5: "start (entry ?w5 i) = p" "size_m (entry ?w5 i) = new_len"
    using e4 l4 by (simp_all add: entry_map_bottom del: map_bottom_guard_page.simps)
  have l5: "i < length (g_map_cache_vector ?w5)"
    using l4 by (simp del: map_bottom_guard_page.simps)
  have e6: "start (entry ?w6 i) = p" "size_m (entry ?w6 i) = new_len"
    using e5 l5
    by (simp_all add: entry_map_top del: map_bottom_guard_page.simps map_top_guard_page.simps)
  have k6: "calls ?w6 = calls ?w4 @
      [Real_mmap (get_base_page pgsz (get_base_page pgsz (p - 1))) pgsz
         PROT_NONE (MAP_ANONYMOUS OR MAP_PRIVATE) (- 1) 0,
       Real_mmap (get_base_page pgsz (ROUND_UP_PAGE pgsz (p + new_len))) pgsz
         PROT_NONE (MAP_ANONYMOUS OR MAP_PRIVATE) (- 1) 0]"
    unfolding calls_map_top calls_map_bottom e5 e4 by simp
  have g: "map_guard_pages os pgsz ?w4 i = (if p = 0 \<and> new_len \<noteq> 0 then ?w4 else ?w6)"
    unfolding map_guard_pages_def e4 by simp
  show ?thesis
  proof (cases "p = 0 \<and> new_len \<noteq> 0")
    case True
    then show ?thesis
      unfolding Let_def body g using e4 by simp
  next
    case False
    then show ?thesis
      unfolding Let_def body g using e6 k6 k4 by simp
  qed
qed

text \<open>A guarded mapping of two pages grows to four pages and moves.\<close>

theorem mremap_with_guards_witness:
  "(let w = run os_ok guarding 4096 world0 [Create 0 8192 (PROT_READ OR PROT_WRITE) anon (- 1) 0];
        r = mremap os_ok guarding 4096 w 1048576 8192 16384 MREMAP_MAYMOVE
    in find_entry w 1048576 = Some 0 \<and> guard_bottom (entry w 0) = 1044480 \<and>
       guard_top (entry w 0) = 1056768 \<and>
       fst r = 1122304 \<and> start (entry (snd r) 0) = 1122304 \<and> size_m (entry (snd r) 0) = 16384 \<and>
       guard_bottom (entry (snd r) 0) = 1118208 \<and> guard_top (entry (snd r) 0) = 1138688 \<and>
       calls (snd r) = calls w @
         [Real_mremap 1048576 8192 16384 MREMAP_MAYMOVE,
          Real_munmap 1044480 4096, Real_munmap 1056768 4096,
          Real_mmap 1118208 4096 PROT_NONE anon (- 1) 0,
          Real_mmap 1138688 4096 PROT_NONE anon (- 1) 0])"
proof -
  let ?w = "run os_ok guarding 4096 world0 [Create 0 8192 (PROT_READ OR PROT_WRITE) anon (- 1) 0]"
  let ?r = "mremap os_ok guarding 4096 ?w 1048576 8192 16384 MREMAP_MAYMOVE"
  have found: "find_entry ?w 1048576 = Some 0"
    by code_simp
  have guards: "guard_bottom (entry ?w 0) = 1044480" "guard_top (entry ?w 0) = 1056768"
    by code_simp+
  have moved: "fst (call_real_mremap os_ok ?w 1048576 8192 16384 MREMAP_MAYMOVE) = 1122304"
    by code_simp
  have placed: "guard_bottom (entry (snd ?r) 0) = 1118208" "guard_top (entry (snd ?r) 0) = 1138688"
    by code_simp+
  have pages: "get_base_page 4096 (get_base_page 4096 (1122304 - 1)) = 1118208"
      "get_base_page 4096 (ROUND_UP_PAGE 4096 (1122304 + 16384)) = 1138688"
    by code_simp+
  have cache: "use_mapping_cache guarding"
    by (simp add: policies)
  have present: "guard_bottom (entry ?w 0) \<noteq> 0 \<or> guard_top (entry ?w 0) \<noteq> 0"
    using guards by simp
  show ?thesis
    using mremap_with_guards [OF cache found present moved, of 4096] found guards placed pages
    unfolding Let_def by (simp add: header_consts)
qed

lemma call_real_mprotect_cases:
  obtains r w1 where "call_real_mprotect os w a len prot = (r, w1)"
    and "g_map_cache_vector w1 = g_map_cache_vector w"
  using cache_call_real_mprotect [of os w a len prot]
  by (cases "call_real_mprotect os w a len prot") auto

text \<open>
  When the real \<^verbatim>\<open>mmap\<close>, \<^verbatim>\<open>mprotect\<close> or \<^verbatim>\<open>mremap\<close> fails, the hook of the same
  name leaves the vector and its entries as they were.
\<close>

theorem failed_primitive_keeps_store:
  "(fst (call_real_mmap os w a len prot flags fd off) = MAP_FAILED \<longrightarrow>
      g_map_cache_vector (snd (mmap os pol pgsz w a len prot flags fd off)) = g_map_cache_vector w) \<and>
   (fst (call_real_mprotect os w a len prot) \<noteq> 0 \<longrightarrow>
      g_map_cache_vector (snd (mprotect os pol pgsz w a len prot)) = g_map_cache_vector w) \<and>
   (fst (call_real_mremap os w a old_len new_len mflags) = MAP_FAILED \<longrightarrow>
      g_map_cache_vector (snd (mremap os pol pgsz w a old_len new_len mflags)) = g_map_cache_vector w)"
proof (intro conjI impI)
  assume failed: "fst (call_real_mmap os w a len prot flags fd off) = MAP_FAILED"
  obtain w1 where r: "call_real_mmap os w a len prot flags fd off = (MAP_FAILED, w1)"
    using failed by (cases "call_real_mmap os w a len prot flags fd off") simp
  then have "g_map_cache_vector w1 = g_map_cache_vector w"
    using cache_call_real_mmap [of os w a len prot flags fd off] by simp
  then show "g_map_cache_vector (snd (mmap os pol pgsz w a len prot flags fd off)) =
      g_map_cache_vector w"
    using r by (auto simp add: mmap_def deny_def)
next
  assume failed: "fst (call_real_mprotect os w a len prot) \<noteq> 0"
  obtain r w1 where r: "call_real_mprotect os w a len prot = (r, w1)"
    and c: "g_map_cache_vector w1 = g_map_cache_vector w"
    by (rule call_real_mprotect_cases)
  then show "g_map_cache_vector (snd (mprotect os pol pgsz w a len prot)) = g_map_cache_vector w"
    using failed by (auto simp add: mprotect_def deny_def Let_def split: option.splits)
next
  assume failed: "fst (call_real_mremap os w a old_len new_len mflags) = MAP_FAILED"
  obtain p w1 where r: "call_real_mremap os w a old_len new_len mflags = (p, w1)"
    and c: "g_map_cache_vector w1 = g_map_cache_vector w"
    by (rule call_real_mremap_cases)
  then show "g_map_cache_vector (snd (mremap os pol pgsz w a old_len new_len mflags)) =
      g_map_cache_vector w"
    using failed by (auto simp add: mremap_def split: option.splits)
qed

text \<open>One tracked mapping, then a kernel that refuses everything.\<close>

theorem failed_primitive_keeps_store_witness:
  "(let w = run os_ok guarding 4096 world0 [Create 0 8192 (PROT_READ OR PROT_WRITE) anon (- 1) 0]
    in mmap os_fails guarding 4096 w 0 4096 PROT_READ anon (- 1) 0 =
         (Returned MAP_FAILED, w\<lparr>errno := ENOMEM, calls := calls w @ [Real_mmap 0 4096 PROT_READ anon (- 1) 0]\<rparr>) \<and>
       fst (mprotect os_fails guarding 4096 w 1048576 8192 PROT_READ) = Returned ERROR \<and>
       g_map_cache_vector (snd (mprotect os_fails guarding 4096 w 1048576 8192 PROT_READ)) =
         g_map_cache_vector w \<and>
       fst (mremap os_fails guarding 4096 w 1048576 8192 16384 MREMAP_MAYMOVE) = MAP_FAILED \<and>
       g_map_cache_vector (snd (mremap os_fails guarding 4096 w 1048576 8192 16384 MREMAP_MAYMOVE)) =
         g_map_cache_vector w)"
proof -
  let ?w = "run os_ok guarding 4096 world0 [Create 0 8192 (PROT_READ OR PROT_WRITE) anon (- 1) 0]"
  have failing: "fst (call_real_mmap os_fails ?w 0 4096 PROT_READ anon (- 1) 0) = MAP_FAILED"
      "fst (call_real_mprotect os_fails ?w 1048576 8192 PROT_READ) \<noteq> 0"
      "fst (call_real_mremap os_fails ?w 1048576 8192 16384 MREMAP_MAYMOVE) = MAP_FAILED"
    by code_simp+
  have returned: "mmap os_fails guarding 4096 ?w 0 4096 PROT_READ anon (- 1) 0 =
         (Returned MAP_FAILED, ?w\<lparr>errno := ENOMEM, calls := calls ?w @ [Real_mmap 0 4096 PROT_READ anon (- 1) 0]\<rparr>)"
      "fst (mprotect os_fails guarding 4096 ?w 1048576 8192 PROT_READ) = Returned ERROR"
      "fst (mremap os_fails guarding 4096 ?w 1048576 8192 16384 MREMAP_MAYMOVE) = MAP_FAILED"
    by code_simp+
  show ?thesis
    unfolding Let_def
    using failed_primitive_keeps_store [where os = os_fails and w = ?w and a = 1048576 and len = 8192
        and prot = PROT_READ and pol = guarding and pgsz = 4096 and old_len = 8192
        and new_len = 16384 and mflags = MREMAP_MAYMOVE] failing(2,3) returned
    by simp
qed

end
